theory Spec2Isabelle
  imports Main "HOL-Library.Word" "HOL-Library.Signed_Division"
begin

section \<open>Data model of roots.cpp\<close>

text \<open>
  A \<open>Volume\<close> is one record of the fstab (\<open>struct fstab_rec\<close>): the fields that
  roots.cpp reads. \<open>length_bytes\<close> is the field \<open>length\<close>, the signed 64-bit \<open>off64_t\<close>; the geometry hints are
  \<open>unsigned int\<close>. \<open>voldmanaged\<close> is what \<open>fs_mgr_is_voldmanaged(v)\<close> answers.
  Nullable C strings (\<open>key_loc\<close>, \<open>label\<close>, \<open>fs_options\<close>) are options.
\<close>

record Volume =
  blk_device :: string
  mount_point :: string
  fs_type :: string
  flags :: nat
  fs_options :: "string option"
  key_loc :: "string option"
  length_bytes :: "64 word"
  label :: "string option"
  voldmanaged :: bool
  logical_blk_size :: "32 word"
  erase_blk_size :: "32 word"

text \<open>
  The static \<open>fstab\<close> of roots.cpp: the array \<open>recs\<close> (its length is
  \<open>num_entries\<close>). A \<open>Volume*\<close> into the table is the index of the record; a null
  pointer is \<open>None\<close>.
\<close>

type_synonym fstab = "Volume list"

text \<open>
  The operating system as roots.cpp meets it. The answers of the calls the layer makes
  are the fields of \<open>env\<close>: the signature probe \<open>blkid_get_tag_value(nullptr, "TYPE", dev)\<close>,
  whether \<open>scan_mounted_volumes()\<close> succeeds, whether \<open>mount(2)\<close> and the two unmount
  calls succeed, the two \<open>open(2)\<close> calls of \<open>format_volume\<close>, the exit status of a
  spawned tool, and the macro \<open>CRYPT_FOOTER_OFFSET\<close> of cryptfs.h.
\<close>

datatype file_stat =
    StatFailed
  | RegularFile "64 word"
  | BlockDevice "64 word"
  | OtherFile

record env =
  blkid_type :: "string \<Rightarrow> string option"
  scan_ok :: bool
  mount_ok :: "string \<Rightarrow> string \<Rightarrow> string \<Rightarrow> bool"
  umount_ok :: "string \<Rightarrow> bool"
  umount_detach_ok :: "string \<Rightarrow> bool"
  open_wronly_creat_ok :: "string \<Rightarrow> bool"
  open_rdonly :: "string \<Rightarrow> file_stat option"
  exec_status :: "string list \<Rightarrow> int"
  CRYPT_FOOTER_OFFSET :: "64 word"

text \<open>
  The mutable part: the mount points the OS has mounted (what a scan observes), and the
  mutating calls issued so far, oldest first.
\<close>

datatype event =
    Mkdirs string
  | Mount string string string
  | Umount string
  | UmountDetach string
  | OpenCreate string
  | WipeBlockDevice string
  | Exec "string list"

record world =
  mounted :: "string list"
  trace :: "event list"

definition emit :: "event \<Rightarrow> world \<Rightarrow> world" where
  "emit e w = w\<lparr>trace := trace w @ [e]\<rparr>"

text \<open>The external tools dispatched so far: the argument vectors of the spawned processes.\<close>

fun exec_args :: "event \<Rightarrow> string list list" where
  "exec_args (Exec args) = [args]"
| "exec_args _ = []"

definition dispatched :: "world \<Rightarrow> string list list" where
  "dispatched w = concat (map exec_args (trace w))"

text \<open>
  Every failing return of roots.cpp is \<open>-1\<close> with a log line; the error names the
  log line. \<open>status\<close> is the C return value.
\<close>

datatype error =
    UnknownVolume
  | RamdiskVolume
  | ScanFailed
  | MountFailed
  | UnknownFsType
  | UmountFailed
  | NotMountPoint
  | FormatUnmountFailed
  | UnsupportedFsType
  | KeyLocOpenFailed
  | BlkDeviceOpenFailed
  | InvalidSize
  | VoldVolume
  | ToolFailed
  | NoFstab

type_synonym result = "error + unit"

definition status :: "result \<Rightarrow> int" where
  "status r = (case r of Inl _ \<Rightarrow> - 1 | Inr _ \<Rightarrow> 0)"

section \<open>Volume table lookups\<close>

text \<open>
  Modelled from the spec: \<open>fs_mgr_get_entry_for_mount_point\<close> and
  \<open>fs_mgr_get_entry_for_mount_point_after\<close> (fs_mgr, not in src/) do an exact match of
  the mount point, the first from the start of the table and the second among the
  entries that follow a given one.
\<close>

definition entry_from :: "nat \<Rightarrow> fstab \<Rightarrow> string \<Rightarrow> nat option" where
  "entry_from k fs path = find (\<lambda>j. mount_point (fs ! j) = path) [k ..< length fs]"

definition fs_mgr_get_entry_for_mount_point :: "fstab \<Rightarrow> string \<Rightarrow> nat option" where
  "fs_mgr_get_entry_for_mount_point fs path = entry_from 0 fs path"

definition fs_mgr_get_entry_for_mount_point_after :: "nat \<Rightarrow> fstab \<Rightarrow> string \<Rightarrow> nat option" where
  "fs_mgr_get_entry_for_mount_point_after start_rec fs path = entry_from (Suc start_rec) fs path"

text \<open>
  The while loop of \<open>get_entry_for_mount_point_detect_fs\<close> (lines 141-143): walk
  the entries of the mount point until one has the detected type.
\<close>

function detect_loop :: "fstab \<Rightarrow> string \<Rightarrow> string \<Rightarrow> nat option \<Rightarrow> nat option" where
  "detect_loop fs path detected None = None"
| "detect_loop fs path detected (Some r) =
     (if fs_type (fs ! r) \<noteq> detected
      then detect_loop fs path detected (fs_mgr_get_entry_for_mount_point_after r fs path)
      else Some r)"
  by pat_completeness auto
termination
proof (relation "measure (\<lambda>(fs, path, detected, rec).
          case rec of None \<Rightarrow> 0 | Some r \<Rightarrow> Suc (length fs - r))")
  show "wf (measure (\<lambda>(fs, path, detected, rec).
          case rec of None \<Rightarrow> 0 | Some r \<Rightarrow> Suc (length fs - r)))"
    by simp
next
  fix fs :: fstab and path detected :: string and r :: nat
  assume "fs_type (fs ! r) \<noteq> detected"
  show "((fs, path, detected, fs_mgr_get_entry_for_mount_point_after r fs path),
         (fs, path, detected, Some r))
        \<in> measure (\<lambda>(fs, path, detected, rec).
          case rec of None \<Rightarrow> 0 | Some r \<Rightarrow> Suc (length fs - r))"
  proof (cases "fs_mgr_get_entry_for_mount_point_after r fs path")
    case None
    then show ?thesis by simp
  next
    case (Some j)
    then have "j \<in> set [Suc r ..< length fs]"
      unfolding fs_mgr_get_entry_for_mount_point_after_def entry_from_def
      by (auto simp: find_Some_iff)
    with Some show ?thesis by auto
  qed
qed

definition get_entry_for_mount_point_detect_fs :: "env \<Rightarrow> fstab \<Rightarrow> string \<Rightarrow> nat option" where
  "get_entry_for_mount_point_detect_fs e fs path =
     (case fs_mgr_get_entry_for_mount_point fs path of
        None \<Rightarrow> None
      | Some rec \<Rightarrow>
          if fs_type (fs ! rec) = ''ext4'' \<or> fs_type (fs ! rec) = ''f2fs''
             \<or> fs_type (fs ! rec) = ''vfat''
          then (case blkid_type e (blk_device (fs ! rec)) of
                  None \<Rightarrow> Some rec
                | Some detected_fs_type \<Rightarrow>
                    (case detect_loop fs path detected_fs_type (Some rec) of
                       None \<Rightarrow> Some rec
                     | Some r \<Rightarrow> Some r))
          else Some rec)"


section \<open>Path resolver\<close>

text \<open>\<open>std::string::find_last_of(c)\<close>: the greatest index holding \<open>c\<close>, \<open>npos\<close> as \<open>None\<close>.\<close>

fun find_last_of :: "string \<Rightarrow> char \<Rightarrow> nat option" where
  "find_last_of [] c = None"
| "find_last_of (x # xs) c =
     (case find_last_of xs c of
        Some i \<Rightarrow> Some (Suc i)
      | None \<Rightarrow> if x = c then Some 0 else None)"

text \<open>The \<open>while (true)\<close> loop of \<open>volume_for_path\<close> (lines 160-172), on \<open>str\<close>.\<close>

function volume_for_path_loop :: "env \<Rightarrow> fstab \<Rightarrow> string \<Rightarrow> nat option" where
  "volume_for_path_loop e fs str =
     (case get_entry_for_mount_point_detect_fs e fs str of
        Some r \<Rightarrow> Some r
      | None \<Rightarrow>
          if str = ''/'' then None
          else (case find_last_of str CHR ''/'' of
                  None \<Rightarrow> None
                | Some slash \<Rightarrow>
                    if slash = 0 then volume_for_path_loop e fs ''/''
                    else volume_for_path_loop e fs (take slash str)))"
  by pat_completeness auto
termination
proof (relation "measure (\<lambda>(e, fs, str). length str)")
  show "wf (measure (\<lambda>(e, fs, str). length str))"
    by simp
next
  fix e :: env and fs :: fstab and str :: string and slash :: nat
  assume ne: "str \<noteq> ''/''" and f: "find_last_of str CHR ''/'' = Some slash" and z: "slash = 0"
  have "\<And>i. find_last_of s CHR ''/'' = Some i \<Longrightarrow> i < length s \<and> s ! i = CHR ''/''" for s
    by (induction s) (auto split: option.splits if_splits)
  with f z have "0 < length str" "str ! 0 = CHR ''/''"
    by auto
  with ne have "1 < length str"
    by (cases str) auto
  then show "((e, fs, ''/''), (e, fs, str)) \<in> measure (\<lambda>(e, fs, str). length str)"
    by simp
next
  fix e :: env and fs :: fstab and str :: string and slash :: nat
  assume f: "find_last_of str CHR ''/'' = Some slash"
  have "\<And>i. find_last_of s CHR ''/'' = Some i \<Longrightarrow> i < length s" for s
    by (induction s) (auto split: option.splits if_splits)
  with f have "slash < length str"
    by auto
  then show "((e, fs, take slash str), (e, fs, str)) \<in> measure (\<lambda>(e, fs, str). length str)"
    by simp
qed

declare volume_for_path_loop.simps [simp del]

text \<open>A \<open>const char*\<close> path is a string; the empty string stands for \<open>""\<close>.\<close>

definition volume_for_path :: "env \<Rightarrow> fstab \<Rightarrow> string \<Rightarrow> nat option" where
  "volume_for_path e fs path = (if path = [] then None else volume_for_path_loop e fs path)"

definition volume_for_label :: "fstab \<Rightarrow> string \<Rightarrow> nat option" where
  "volume_for_label fs lbl =
     find (\<lambda>i. case label (fs ! i) of None \<Rightarrow> False | Some l \<Rightarrow> l = lbl) [0 ..< length fs]"

section \<open>Mount manager\<close>

text \<open>
  Modelled from the spec: the mounted-volume snapshot of mounts.cpp (not in src/) is a
  scan-on-demand set of mount points reflecting the current OS mount state. A
  \<open>MountedVolume*\<close> is the mount point it stands for.
\<close>

definition find_mounted_volume_by_mount_point :: "world \<Rightarrow> string \<Rightarrow> string option" where
  "find_mounted_volume_by_mount_point w mp = (if mp \<in> set (mounted w) then Some mp else None)"

text \<open>
  Modelled from the spec: the two unmount calls of mounts.cpp (not in src/) unmount the
  mount point, normally or lazily; on success the mount point leaves the OS mount state.
\<close>

definition unmount_mounted_volume :: "env \<Rightarrow> string \<Rightarrow> world \<Rightarrow> result \<times> world" where
  "unmount_mounted_volume e mv w =
     (let w1 = emit (Umount mv) w in
      if umount_ok e mv then (Inr (), w1\<lparr>mounted := removeAll mv (mounted w1)\<rparr>)
      else (Inl UmountFailed, w1))"

definition unmount_mounted_volume_detach :: "env \<Rightarrow> string \<Rightarrow> world \<Rightarrow> result \<times> world" where
  "unmount_mounted_volume_detach e mv w =
     (let w1 = emit (UmountDetach mv) w in
      if umount_detach_ok e mv then (Inr (), w1\<lparr>mounted := removeAll mv (mounted w1)\<rparr>)
      else (Inl UmountFailed, w1))"

text \<open>
  Modelled from the spec: the OS mount call \<open>mount(2)\<close>; on success the target joins
  the OS mount state.
\<close>

definition os_mount :: "env \<Rightarrow> string \<Rightarrow> string \<Rightarrow> string \<Rightarrow> world \<Rightarrow> result \<times> world" where
  "os_mount e dev target fstype w =
     (let w1 = emit (Mount dev target fstype) w in
      if mount_ok e dev target fstype then (Inr (), w1\<lparr>mounted := List.insert target (mounted w1)\<rparr>)
      else (Inl MountFailed, w1))"

text \<open>\<open>ensure_path_mounted_at\<close> (lines 188-230); a null \<open>mount_point\<close> is \<open>None\<close>.\<close>

definition ensure_path_mounted_at ::
    "env \<Rightarrow> fstab \<Rightarrow> string \<Rightarrow> string option \<Rightarrow> world \<Rightarrow> result \<times> world" where
  "ensure_path_mounted_at e fs path mount_point_arg w =
     (case volume_for_path e fs path of
        None \<Rightarrow> (Inl UnknownVolume, w)
      | Some v \<Rightarrow>
          if fs_type (fs ! v) = ''ramdisk'' then (Inr (), w)
          else if \<not> scan_ok e then (Inl ScanFailed, w)
          else
            let mp = (case mount_point_arg of None \<Rightarrow> mount_point (fs ! v) | Some m \<Rightarrow> m) in
            if \<not> voldmanaged (fs ! v) \<and> find_mounted_volume_by_mount_point w mp \<noteq> None
            then (Inr (), w)
            else
              let w1 = emit (Mkdirs mp) w in
              if fs_type (fs ! v) = ''ext4'' \<or> fs_type (fs ! v) = ''squashfs''
                 \<or> fs_type (fs ! v) = ''vfat'' \<or> fs_type (fs ! v) = ''f2fs''
              then os_mount e (blk_device (fs ! v)) mp (fs_type (fs ! v)) w1
              else (Inl UnknownFsType, w1))"

definition ensure_volume_mounted :: "env \<Rightarrow> fstab \<Rightarrow> nat option \<Rightarrow> world \<Rightarrow> result \<times> world" where
  "ensure_volume_mounted e fs v w =
     (case v of
        None \<Rightarrow> (Inl UnknownVolume, w)
      | Some i \<Rightarrow> ensure_path_mounted_at e fs (mount_point (fs ! i)) None w)"

definition ensure_path_mounted :: "env \<Rightarrow> fstab \<Rightarrow> string \<Rightarrow> world \<Rightarrow> result \<times> world" where
  "ensure_path_mounted e fs path w = ensure_path_mounted_at e fs path None w"

text \<open>\<open>ensure_volume_unmounted\<close> (lines 265-287).\<close>

definition ensure_volume_unmounted ::
    "env \<Rightarrow> fstab \<Rightarrow> nat option \<Rightarrow> bool \<Rightarrow> world \<Rightarrow> result \<times> world" where
  "ensure_volume_unmounted e fs v detach w =
     (case v of
        None \<Rightarrow> (Inl UnknownVolume, w)
      | Some i \<Rightarrow>
          if fs_type (fs ! i) = ''ramdisk'' then (Inl RamdiskVolume, w)
          else if \<not> scan_ok e then (Inl ScanFailed, w)
          else (case find_mounted_volume_by_mount_point w (mount_point (fs ! i)) of
                  None \<Rightarrow> (Inr (), w)
                | Some mv \<Rightarrow>
                    if detach then unmount_mounted_volume_detach e mv w
                    else unmount_mounted_volume e mv w))"

text \<open>
  \<open>ensure_path_unmounted\<close> (lines 245-263). \<open>memcmp(path, "/storage/", 9) == 0\<close>
  holds exactly when the first nine characters of the path are the prefix. The label is
  the text from there up to the next \<open>'/'\<close>, or the rest of the path; it is copied into
  a buffer of \<open>PATH_MAX\<close> bytes, which a longer label overruns: \<open>None\<close>.
\<close>

definition PATH_MAX :: nat where
  "PATH_MAX = 4096"

definition storage_label :: "string \<Rightarrow> string option" where
  "storage_label path =
     (let p = drop 9 path;
          lbl = takeWhile (\<lambda>c. c \<noteq> CHR ''/'') p
      in if length lbl < PATH_MAX then Some lbl else None)"

datatype 'a outcome = Returns 'a | BufferOverrun

definition ensure_path_unmounted ::
    "env \<Rightarrow> fstab \<Rightarrow> string \<Rightarrow> bool \<Rightarrow> world \<Rightarrow> (result \<times> world) outcome" where
  "ensure_path_unmounted e fs path detach w =
     (if take 9 path = ''/storage/''
      then (case storage_label path of
              None \<Rightarrow> BufferOverrun
            | Some lbl \<Rightarrow> Returns (ensure_volume_unmounted e fs (volume_for_label fs lbl) detach w))
      else Returns (ensure_volume_unmounted e fs (volume_for_path e fs path) detach w))"


section \<open>Format engine\<close>

text \<open>\<open>std::to_string\<close> and \<open>%d\<close>: the decimal digits of an integer.\<close>

fun dec_digits :: "nat \<Rightarrow> string" where
  "dec_digits n =
     (if n < 10 then [char_of (48 + n)]
      else dec_digits (n div 10) @ [char_of (48 + n mod 10)])"

declare dec_digits.simps [simp del]

definition to_string :: "int \<Rightarrow> string" where
  "to_string k = (if k < 0 then CHR ''-'' # dec_digits (nat (- k)) else dec_digits (nat k))"

text \<open>
  \<open>exec_cmd\<close> (lines 289-309): spawn the tool, wait, and return its exit status.
\<close>

definition exec_cmd :: "env \<Rightarrow> string list \<Rightarrow> world \<Rightarrow> int \<times> world" where
  "exec_cmd e args w = (exec_status e args, emit (Exec args) w)"

text \<open>
  \<open>get_file_size(fd, reserve_len)\<close> (lines 311-332). The descriptor is what
  \<open>fstat\<close> and \<open>get_block_device_size\<close> say of it. The result is an \<open>int64_t\<close>,
  read with \<open>sint\<close>; \<open>st_size - reserve_len\<close> is computed in \<open>uint64_t\<close>, and
  the block-device comparisons are unsigned.
\<close>

definition INT64_MAX :: "64 word" where
  "INT64_MAX = 0x7FFFFFFFFFFFFFFF"

definition get_file_size :: "file_stat \<Rightarrow> 64 word \<Rightarrow> 64 word" where
  "get_file_size fd reserve_len =
     (case fd of
        StatFailed \<Rightarrow> 0
      | RegularFile st_size \<Rightarrow> st_size - reserve_len
      | BlockDevice block_device_size \<Rightarrow>
          if block_device_size < reserve_len \<or> block_device_size > INT64_MAX then 0
          else block_device_size - reserve_len
      | OtherFile \<Rightarrow> 0)"

text \<open>Lines 359-368 of \<open>format_volume\<close>: wipe a \<open>key_loc\<close> that looks like a path.\<close>

definition wipe_key_loc :: "env \<Rightarrow> Volume \<Rightarrow> world \<Rightarrow> result \<times> world" where
  "wipe_key_loc e v w =
     (case key_loc v of
        None \<Rightarrow> (Inr (), w)
      | Some k \<Rightarrow>
          if k \<noteq> [] \<and> hd k = CHR ''/''
          then (if open_wronly_creat_ok e k
                then (Inr (), emit (WipeBlockDevice k) (emit (OpenCreate k) w))
                else (Inl KeyLocOpenFailed, w))
          else (Inr (), w))"

text \<open>Lines 370-387 of \<open>format_volume\<close>: the target length, an \<open>int64_t\<close>.\<close>

definition compute_length :: "env \<Rightarrow> Volume \<Rightarrow> error + 64 word" where
  "compute_length e v =
     (if 0 < sint (length_bytes v) then Inr (length_bytes v)
      else if sint (length_bytes v) < 0 \<or> key_loc v = Some ''footer''
      then (case open_rdonly e (blk_device v) of
              None \<Rightarrow> Inl BlkDeviceOpenFailed
            | Some fd \<Rightarrow>
                let len = get_file_size fd
                      (if length_bytes v \<noteq> 0 then - length_bytes v else CRYPT_FOOTER_OFFSET e)
                in if sint len \<le> 0 then Inl InvalidSize else Inr len)
      else Inr 0)"

text \<open>Lines 394-435: the ext4 formatter, then the directory loader.\<close>

definition kBlockSize :: int where
  "kBlockSize = 4096"

definition mke2fs_args :: "Volume \<Rightarrow> 64 word \<Rightarrow> string list" where
  "mke2fs_args v len =
     (let raid_stride0 = logical_blk_size v div 4096;
          raid_stripe_width = erase_blk_size v div 4096;
          raid_stride = (if logical_blk_size v \<noteq> 0 \<and> logical_blk_size v < 8192
                         then 2 else raid_stride0)
      in [''/sbin/mke2fs_static'', ''-F'', ''-t'', ''ext4'', ''-b'', to_string kBlockSize]
         @ (if erase_blk_size v \<noteq> 0 \<and> logical_blk_size v \<noteq> 0
            then [''-E'', ''stride='' @ to_string (sint raid_stride) @ '',stripe-width=''
                          @ to_string (sint raid_stripe_width)]
            else [])
         @ [blk_device v]
         @ (if len \<noteq> 0 then [to_string (sint len sdiv kBlockSize)] else []))"

definition format_ext4 ::
    "env \<Rightarrow> Volume \<Rightarrow> string \<Rightarrow> string option \<Rightarrow> 64 word \<Rightarrow> world \<Rightarrow> result \<times> world" where
  "format_ext4 e v volume directory len w =
     (let (result, w1) = exec_cmd e (mke2fs_args v len) w;
          (result', w2) =
            (case directory of
               Some dir \<Rightarrow>
                 if result = 0
                 then exec_cmd e [''/sbin/e2fsdroid_static'', ''-e'', ''-f'', dir, ''-a'', volume,
                                  blk_device v] w1
                 else (result, w1)
             | None \<Rightarrow> (result, w1))
      in if result' \<noteq> 0 then (Inl ToolFailed, w2) else (Inr (), w2))"

text \<open>Lines 437-473: the f2fs formatter, then the loader.\<close>

definition kSectorSize :: int where
  "kSectorSize = 4096"

definition make_f2fs_cmd :: "Volume \<Rightarrow> 64 word \<Rightarrow> string list" where
  "make_f2fs_cmd v len =
     [''/sbin/mkfs.f2fs'', ''-d1'', ''-f'', ''-O'', ''encrypt'', ''-O'', ''quota'', ''-O'', ''verity'',
      ''-w'', to_string kSectorSize, blk_device v]
     @ (if kSectorSize \<le> sint len then [to_string (sint len sdiv kSectorSize)] else [])"

definition format_f2fs ::
    "env \<Rightarrow> Volume \<Rightarrow> string \<Rightarrow> string option \<Rightarrow> 64 word \<Rightarrow> world \<Rightarrow> result \<times> world" where
  "format_f2fs e v volume directory len w =
     (let (result, w1) = exec_cmd e (make_f2fs_cmd v len) w;
          (result', w2) =
            (case directory of
               Some dir \<Rightarrow>
                 if result = 0
                 then exec_cmd e [''/sbin/sload.f2fs'', ''-f'', dir, ''-t'', volume, blk_device v] w1
                 else (result, w1)
             | None \<Rightarrow> (result, w1))
      in if result' \<noteq> 0 then (Inl ToolFailed, w2) else (Inr (), w2))"

text \<open>
  \<open>format_volume(volume, directory)\<close> (lines 334-474); a null \<open>directory\<close> is
  \<open>None\<close>. The checks come in the order of the source.
\<close>

definition format_volume ::
    "env \<Rightarrow> fstab \<Rightarrow> string \<Rightarrow> string option \<Rightarrow> world \<Rightarrow> (result \<times> world) outcome" where
  "format_volume e fs volume directory w =
     (case volume_for_path e fs volume of
        None \<Rightarrow> Returns (Inl UnknownVolume, w)
      | Some i \<Rightarrow>
          let v = fs ! i in
          if fs_type v = ''ramdisk'' then Returns (Inl RamdiskVolume, w)
          else if mount_point v \<noteq> volume then Returns (Inl NotMountPoint, w)
          else (case ensure_path_unmounted e fs volume False w of
                  BufferOverrun \<Rightarrow> BufferOverrun
                | Returns (Inl _, w1) \<Rightarrow> Returns (Inl FormatUnmountFailed, w1)
                | Returns (Inr _, w1) \<Rightarrow>
                    if fs_type v \<noteq> ''ext4'' \<and> fs_type v \<noteq> ''f2fs''
                    then Returns (Inl UnsupportedFsType, w1)
                    else (case wipe_key_loc e v w1 of
                            (Inl err, w2) \<Rightarrow> Returns (Inl err, w2)
                          | (Inr _, w2) \<Rightarrow>
                              (case compute_length e v of
                                 Inl err \<Rightarrow> Returns (Inl err, w2)
                               | Inr len \<Rightarrow>
                                   if voldmanaged v then Returns (Inl VoldVolume, w2)
                                   else if fs_type v = ''ext4''
                                   then Returns (format_ext4 e v volume directory len w2)
                                   else Returns (format_f2fs e v volume directory len w2)))))"

section \<open>Install-mount orchestrator\<close>

text \<open>
  The \<open>for\<close> loop of \<open>setup_install_mounts\<close> (lines 485-509), on the entries from
  index \<open>i\<close> on; \<open>n\<close> counts the entries left.
\<close>

fun setup_install_mounts_loop :: "env \<Rightarrow> fstab \<Rightarrow> nat \<Rightarrow> nat \<Rightarrow> world \<Rightarrow> result \<times> world" where
  "setup_install_mounts_loop e fs i 0 w = (Inr (), w)"
| "setup_install_mounts_loop e fs i (Suc n) w =
     (let v = fs ! i in
      if mount_point v = ''/'' then setup_install_mounts_loop e fs (Suc i) n w
      else if mount_point v = ''/tmp'' \<or> mount_point v = ''/cache''
      then (case ensure_path_mounted e fs (mount_point v) w of
              (Inl _, w1) \<Rightarrow> (Inl MountFailed, w1)
            | (Inr _, w1) \<Rightarrow> setup_install_mounts_loop e fs (Suc i) n w1)
      else (case ensure_volume_unmounted e fs (Some i) (mount_point v = ''/data'') w of
              (Inl _, w1) \<Rightarrow> (Inl UmountFailed, w1)
            | (Inr _, w1) \<Rightarrow> setup_install_mounts_loop e fs (Suc i) n w1))"

text \<open>\<open>setup_install_mounts\<close> (lines 480-511); an unloaded table is \<open>None\<close>.\<close>

definition setup_install_mounts :: "env \<Rightarrow> fstab option \<Rightarrow> world \<Rightarrow> result \<times> world" where
  "setup_install_mounts e tab w =
     (case tab of
        None \<Rightarrow> (Inl NoFstab, w)
      | Some fs \<Rightarrow> setup_install_mounts_loop e fs 0 (length fs) w)"


section \<open>The resolver and the orchestrator in the words of the specification\<close>

text \<open>
  The resolver as the specification words it. The candidates of a path are the path
  itself and then its ancestors, nearest first: the text before each \<open>'/'\<close> of the
  path, from the last \<open>'/'\<close> to the first, where the empty text stands for \<open>/\<close>.
  The result is the first candidate that detection finds in the table.
\<close>

definition slash_positions :: "string \<Rightarrow> nat list" where
  "slash_positions path = filter (\<lambda>i. path ! i = CHR ''/'') [0 ..< length path]"

definition candidates :: "string \<Rightarrow> string list" where
  "candidates path =
     path # map (\<lambda>i. if i = 0 then ''/'' else take i path) (rev (slash_positions path))"

fun first_match :: "(string \<Rightarrow> nat option) \<Rightarrow> string list \<Rightarrow> nat option" where
  "first_match f [] = None"
| "first_match f (s # ss) = (case f s of Some r \<Rightarrow> Some r | None \<Rightarrow> first_match f ss)"

text \<open>A path nested below \<open>mp\<close>: the components \<open>xs\<close> appended, each after a \<open>'/'\<close>.\<close>

definition nested :: "string \<Rightarrow> string list \<Rightarrow> string" where
  "nested mp xs = mp @ concat (map (\<lambda>x. CHR ''/'' # x) xs)"

text \<open>
  The orchestrator as the specification words it: what is done with a volume depends
  on its mount point alone; the volumes are taken in table order, and the first step
  that fails ends the run.
\<close>

datatype install_action = LeaveAlone | EnsureMounted | EnsureUnmounted bool

definition install_action_for :: "string \<Rightarrow> install_action" where
  "install_action_for mp =
     (if mp = ''/'' then LeaveAlone
      else if mp \<in> {''/tmp'', ''/cache''} then EnsureMounted
      else EnsureUnmounted (mp = ''/data''))"

definition install_step :: "env \<Rightarrow> fstab \<Rightarrow> nat \<Rightarrow> world \<Rightarrow> result \<times> world" where
  "install_step e fs i w =
     (case install_action_for (mount_point (fs ! i)) of
        LeaveAlone \<Rightarrow> (Inr (), w)
      | EnsureMounted \<Rightarrow>
          (case ensure_path_mounted e fs (mount_point (fs ! i)) w of
             (Inl _, w1) \<Rightarrow> (Inl MountFailed, w1)
           | (Inr u, w1) \<Rightarrow> (Inr u, w1))
      | EnsureUnmounted detach \<Rightarrow>
          (case ensure_volume_unmounted e fs (Some i) detach w of
             (Inl _, w1) \<Rightarrow> (Inl UmountFailed, w1)
           | (Inr u, w1) \<Rightarrow> (Inr u, w1)))"

fun run_until_failure :: "(world \<Rightarrow> result \<times> world) list \<Rightarrow> world \<Rightarrow> result \<times> world" where
  "run_until_failure [] w = (Inr (), w)"
| "run_until_failure (step # steps) w =
     (case step w of
        (Inl err, w1) \<Rightarrow> (Inl err, w1)
      | (Inr _, w1) \<Rightarrow> run_until_failure steps w1)"

text \<open>The calls that the setup may issue: which mount points each kind of call may name.\<close>

fun install_event_ok :: "event \<Rightarrow> bool" where
  "install_event_ok (Mkdirs mp) = (mp = ''/tmp'' \<or> mp = ''/cache'')"
| "install_event_ok (Mount dev mp fstype) = (mp = ''/tmp'' \<or> mp = ''/cache'')"
| "install_event_ok (Umount mp) = (mp \<notin> {''/'', ''/tmp'', ''/cache'', ''/data''})"
| "install_event_ok (UmountDetach mp) = (mp = ''/data'')"
| "install_event_ok _ = False"

section \<open>Example tables\<close>

text \<open>
  A cooperative operating system (nothing detected by the probe, every call succeeds,
  every device a 2048-byte block device), a volume with default fields, and a small table.
\<close>

definition example_env :: env where
  "example_env = \<lparr>blkid_type = (\<lambda>_. None), scan_ok = True, mount_ok = (\<lambda>_ _ _. True),
     umount_ok = (\<lambda>_. True), umount_detach_ok = (\<lambda>_. True),
     open_wronly_creat_ok = (\<lambda>_. True), open_rdonly = (\<lambda>_. Some (BlockDevice 2048)),
     exec_status = (\<lambda>_. 0), CRYPT_FOOTER_OFFSET = 0x4000\<rparr>"

definition vol :: "string \<Rightarrow> string \<Rightarrow> string \<Rightarrow> Volume" where
  "vol dev mp ty = \<lparr>blk_device = dev, mount_point = mp, fs_type = ty, flags = 0,
     fs_options = None, key_loc = None, length_bytes = 0, label = None, voldmanaged = False,
     logical_blk_size = 0, erase_blk_size = 0\<rparr>"

definition example_fstab :: fstab where
  "example_fstab = [vol ''/dev/block/system'' ''/'' ''ext4'',
                    vol ''/dev/block/cache'' ''/cache'' ''ext4'',
                    vol ''/dev/block/userdata'' ''/data'' ''f2fs'',
                    vol ''ramdisk'' ''/tmp'' ''ramdisk'']"

definition example_world :: world where
  "example_world = \<lparr>mounted = [''/'', ''/data''], trace = []\<rparr>"

text \<open>A table whose root volume is a squashfs image.\<close>

definition squashfs_root_fstab :: fstab where
  "squashfs_root_fstab = [vol ''/dev/block/system'' ''/'' ''squashfs'',
                          vol ''ramdisk'' ''/tmp'' ''ramdisk'']"

text \<open>
  A table with one vold-managed ext4 volume, its encryption metadata on a device of
  its own, and a world in which that volume is mounted.
\<close>

definition vold_fstab :: fstab where
  "vold_fstab = [(vol ''/dev/block/sda1'' ''/mnt/usb'' ''ext4'')
                   \<lparr>key_loc := Some ''/dev/block/sda2'', voldmanaged := True\<rparr>]"

definition usb_world :: world where
  "usb_world = \<lparr>mounted = [''/mnt/usb''], trace = []\<rparr>"

text \<open>Two candidate entries for \<open>/data\<close>, and a probe that finds f2fs on the device.\<close>

definition dual_fstab :: fstab where
  "dual_fstab = [vol ''/dev/block/cache'' ''/cache'' ''ext4'',
                 vol ''/dev/block/userdata'' ''/data'' ''ext4'',
                 vol ''/dev/block/userdata'' ''/data'' ''f2fs'']"

definition f2fs_env :: env where
  "f2fs_env = example_env\<lparr>blkid_type :=
     (\<lambda>dev. if dev = ''/dev/block/userdata'' then Some ''f2fs'' else None)\<rparr>"

text \<open>
  Volumes with a configured length, a volume with a crypto footer, and devices that are
  regular files of one megabyte.
\<close>

definition sized_vol :: "64 word \<Rightarrow> Volume" where
  "sized_vol n = (vol ''/dev/block/userdata'' ''/data'' ''ext4'')\<lparr>length_bytes := n\<rparr>"

definition footer_vol :: Volume where
  "footer_vol = (vol ''/dev/block/userdata'' ''/data'' ''ext4'')\<lparr>key_loc := Some ''footer''\<rparr>"

definition file_env :: env where
  "file_env = example_env\<lparr>open_rdonly := (\<lambda>_. Some (RegularFile 1048576))\<rparr>"

text \<open>A table with a volume known by its label, as vold-managed storage is.\<close>

definition label_fstab :: fstab where
  "label_fstab = [vol ''/dev/block/cache'' ''/cache'' ''ext4'',
                  (vol ''/dev/block/mmcblk1p1'' ''/mnt/sdcard'' ''vfat'')
                    \<lparr>label := Some ''MYLABEL'', voldmanaged := True\<rparr>]"

definition sdcard_world :: world where
  "sdcard_world = \<lparr>mounted = [''/cache'', ''/mnt/sdcard''], trace = []\<rparr>"

text \<open>The example world after \<open>/cache\<close> has been mounted.\<close>

definition cache_world :: world where
  "cache_world = \<lparr>mounted = [''/cache'', ''/'', ''/data''],
                   trace = [Mkdirs ''/cache'', Mount ''/dev/block/cache'' ''/cache'' ''ext4'']\<rparr>"

text \<open>
  A table in which the mount point of a vold-managed volume lies under \<open>/storage/\<close>
  while another volume carries that name as its label, both mounted.
\<close>

definition storage_fstab :: fstab where
  "storage_fstab = [(vol ''/dev/block/sda1'' ''/storage/usb'' ''ext4'')
                      \<lparr>key_loc := Some ''/dev/block/sda2'', voldmanaged := True\<rparr>,
                    (vol ''/dev/block/mmcblk1p1'' ''/mnt/sdcard'' ''vfat'')
                      \<lparr>label := Some ''usb''\<rparr>]"

definition storage_world :: world where
  "storage_world = \<lparr>mounted = [''/storage/usb'', ''/mnt/sdcard''], trace = []\<rparr>"

section \<open>What each step adds to the trace\<close>

lemma trace_emit: "trace (emit ev w) = trace w @ [ev]"
  by (simp add: emit_def)

lemma mounted_emit: "mounted (emit ev w) = mounted w"
  by (simp add: emit_def)

lemma dispatched_emit: "dispatched (emit ev w) = dispatched w @ exec_args ev"
  by (simp add: dispatched_def emit_def)

lemma ensure_volume_unmounted_trace:
  "trace (snd (ensure_volume_unmounted e fs v detach w)) = trace w
   \<or> (\<exists>i. v = Some i \<and> mount_point (fs ! i) \<in> set (mounted w)
        \<and> trace (snd (ensure_volume_unmounted e fs v detach w)) =
            trace w @ [if detach then UmountDetach (mount_point (fs ! i))
                       else Umount (mount_point (fs ! i))])"
  by (auto simp: ensure_volume_unmounted_def find_mounted_volume_by_mount_point_def
      unmount_mounted_volume_def unmount_mounted_volume_detach_def trace_emit Let_def
      split: option.splits)

lemma ensure_volume_unmounted_dispatched:
  "dispatched (snd (ensure_volume_unmounted e fs v detach w)) = dispatched w"
  using ensure_volume_unmounted_trace [of e fs v detach w]
  by (auto simp: dispatched_def)

lemma ensure_path_unmounted_dispatched:
  assumes "ensure_path_unmounted e fs path detach w = Returns (r, w')"
  shows "dispatched w' = dispatched w"
proof -
  from assms obtain v where "ensure_volume_unmounted e fs v detach w = (r, w')"
    by (auto simp: ensure_path_unmounted_def split: if_splits option.splits)
  with ensure_volume_unmounted_dispatched [of e fs v detach w] show ?thesis
    by simp
qed

lemma wipe_key_loc_dispatched:
  "dispatched (snd (wipe_key_loc e v w)) = dispatched w"
  by (auto simp: wipe_key_loc_def dispatched_emit split: option.splits)

section \<open>Format engine: rejected paths\<close>

text \<open>
  C7. For every path that resolves to a volume but is not equal, character for
  character, to that volume's mount point, \<open>format_volume\<close> fails (as a ramdisk, or
  with "can't give path to format_volume") and leaves the world as it was: nothing is
  unmounted, wiped or formatted.
\<close>

theorem C7_format_volume_rejects_sub_path:
  assumes "volume_for_path e fs volume = Some i"
    and "mount_point (fs ! i) \<noteq> volume"
  shows "format_volume e fs volume directory w =
           Returns (Inl (if fs_type (fs ! i) = ''ramdisk'' then RamdiskVolume else NotMountPoint), w)"
  using assms by (simp add: format_volume_def)

theorem C7_sub_path_witness:
  "volume_for_path example_env example_fstab ''/cache/recovery'' = Some 1
   \<and> mount_point (example_fstab ! 1) \<noteq> ''/cache/recovery''
   \<and> format_volume example_env example_fstab ''/cache/recovery'' None example_world =
       Returns (Inl NotMountPoint, example_world)"
proof -
  have a: "volume_for_path example_env example_fstab ''/cache/recovery'' = Some 1"
    by code_simp
  have b: "mount_point (example_fstab ! 1) \<noteq> ''/cache/recovery''"
    by code_simp
  have c: "fs_type (example_fstab ! 1) \<noteq> ''ramdisk''"
    by code_simp
  from C7_format_volume_rejects_sub_path [OF a b, of None example_world] c a b
  show ?thesis by simp
qed

section \<open>Format engine: ramdisk and root volumes\<close>

text \<open>
  C1 (as amended). For every volume table and every path, a call to \<open>format_volume\<close>
  whose path resolves to a ramdisk volume fails, whatever the other parameters, with the
  world untouched; and a call whose path resolves to the root volume (mount point
  \<open>/\<close>) fails without dispatching to an external tool when the type of that volume is
  neither ext4 nor f2fs. \<open>format_volume\<close> has no check of the mount point \<open>/\<close>.
\<close>

theorem C1_format_volume_ramdisk_fails:
  assumes "volume_for_path e fs volume = Some i"
  shows "(fs_type (fs ! i) = ''ramdisk'' \<longrightarrow>
            format_volume e fs volume directory w = Returns (Inl RamdiskVolume, w))
       \<and> (mount_point (fs ! i) = ''/'' \<and> fs_type (fs ! i) \<noteq> ''ext4'' \<and> fs_type (fs ! i) \<noteq> ''f2fs'' \<longrightarrow>
            (\<exists>err w'. format_volume e fs volume directory w = Returns (Inl err, w')
               \<and> dispatched w' = dispatched w))"
proof (intro conjI impI)
  assume "fs_type (fs ! i) = ''ramdisk''"
  with assms show "format_volume e fs volume directory w = Returns (Inl RamdiskVolume, w)"
    by (simp add: format_volume_def Let_def)
next
  assume root: "mount_point (fs ! i) = ''/'' \<and> fs_type (fs ! i) \<noteq> ''ext4'' \<and> fs_type (fs ! i) \<noteq> ''f2fs''"
  show "\<exists>err w'. format_volume e fs volume directory w = Returns (Inl err, w')
               \<and> dispatched w' = dispatched w"
  proof (cases "fs_type (fs ! i) = ''ramdisk'' \<or> volume \<noteq> ''/''")
    case True
    with assms root show ?thesis
      by (auto simp: format_volume_def Let_def)
  next
    case False
    then have v: "volume = ''/''" and nr: "fs_type (fs ! i) \<noteq> ''ramdisk''"
      by auto
    obtain r w1 where u: "ensure_path_unmounted e fs ''/'' False w = Returns (r, w1)"
      by (cases "ensure_volume_unmounted e fs (volume_for_path e fs ''/'') False w")
         (simp add: ensure_path_unmounted_def)
    have ne: "dispatched w1 = dispatched w"
      using ensure_path_unmounted_dispatched [OF u] .
    show ?thesis
      using assms v nr root u ne
      by (cases r) (auto simp: format_volume_def Let_def)
  qed
qed

theorem C1_ramdisk_witness:
  "volume_for_path example_env example_fstab ''/tmp'' = Some 3
   \<and> fs_type (example_fstab ! 3) = ''ramdisk''
   \<and> format_volume example_env example_fstab ''/tmp'' (Some ''/seed'') example_world =
       Returns (Inl RamdiskVolume, example_world)
   \<and> volume_for_path example_env squashfs_root_fstab ''/'' = Some 0
   \<and> mount_point (squashfs_root_fstab ! 0) = ''/''
   \<and> fs_type (squashfs_root_fstab ! 0) = ''squashfs''
   \<and> (\<exists>err w'. format_volume example_env squashfs_root_fstab ''/'' None example_world =
                   Returns (Inl err, w')
          \<and> dispatched w' = dispatched example_world)"
proof -
  have a: "volume_for_path example_env example_fstab ''/tmp'' = Some 3"
    by code_simp
  have b: "fs_type (example_fstab ! 3) = ''ramdisk''"
    by code_simp
  have c: "volume_for_path example_env squashfs_root_fstab ''/'' = Some 0"
    by code_simp
  have d: "mount_point (squashfs_root_fstab ! 0) = ''/''"
      "fs_type (squashfs_root_fstab ! 0) = ''squashfs''"
    by code_simp+
  from C1_format_volume_ramdisk_fails [OF a, of "Some ''/seed''" example_world]
       C1_format_volume_ramdisk_fails [OF c, of None example_world] a b c d
  show ?thesis by simp
qed

text \<open>
  A root volume of type ext4 is formatted like any other volume: the path \<open>/\<close>
  resolves to it, it is unmounted, and \<open>mke2fs\<close> is run on its device.
\<close>

theorem C1_root_volume_counterexample:
  "volume_for_path example_env example_fstab ''/'' = Some 0
   \<and> mount_point (example_fstab ! 0) = ''/''
   \<and> format_volume example_env example_fstab ''/'' None example_world =
       Returns (Inr (),
         \<lparr>mounted = [''/data''],
          trace = [Umount ''/'',
                   Exec [''/sbin/mke2fs_static'', ''-F'', ''-t'', ''ext4'', ''-b'', ''4096'',
                         ''/dev/block/system'']]\<rparr>)"
  by code_simp

section \<open>Vold-managed volumes\<close>

lemma ensure_path_unmounted_returns:
  assumes "take 9 path = ''/storage/'' \<longrightarrow>
             length (takeWhile (\<lambda>c. c \<noteq> CHR ''/'') (drop 9 path)) < PATH_MAX"
  shows "\<exists>r w1. ensure_path_unmounted e fs path detach w = Returns (r, w1)"
proof (cases "take 9 path = ''/storage/''")
  case True
  with assms obtain lbl where "storage_label path = Some lbl"
    by (auto simp: storage_label_def Let_def)
  with True show ?thesis
    by (cases "ensure_volume_unmounted e fs (volume_for_label fs lbl) detach w")
       (simp add: ensure_path_unmounted_def)
next
  case False
  then show ?thesis
    by (cases "ensure_volume_unmounted e fs (volume_for_path e fs path) detach w")
       (simp add: ensure_path_unmounted_def)
qed

text \<open>
  C2 (as amended). For a path that resolves to a vold-managed volume:
  \<open>format_volume\<close> fails and dispatches to no external tool, for a path whose label
  (the text after a leading \<open>/storage/\<close>, up to the next \<open>'/'\<close>) fits the
  \<open>PATH_MAX\<close> buffer; \<open>ensure_path_mounted_at\<close> skips the already-mounted test,
  so that for a supported type and a successful scan it creates the directory of the
  target and issues the OS mount call there, with or without a mount point override
  and even when the target is mounted; and \<open>ensure_volume_unmounted\<close> has no vold
  test: for a volume that is not a ramdisk and a successful scan it issues the unmount
  call, normal or lazy as asked, whenever the mount point is in the scan.
\<close>

theorem C2_voldmanaged_volume:
  assumes "volume_for_path e fs path = Some i"
    and "voldmanaged (fs ! i)"
  shows "((take 9 path = ''/storage/'' \<longrightarrow>
             length (takeWhile (\<lambda>c. c \<noteq> CHR ''/'') (drop 9 path)) < PATH_MAX) \<longrightarrow>
          (\<exists>err w'. format_volume e fs path directory w = Returns (Inl err, w')
                \<and> dispatched w' = dispatched w))
       \<and> (scan_ok e \<and> fs_type (fs ! i) \<in> {''ext4'', ''squashfs'', ''vfat'', ''f2fs''} \<longrightarrow>
            trace (snd (ensure_path_mounted_at e fs path mount_point_arg w)) =
              trace w @
                [Mkdirs (case mount_point_arg of None \<Rightarrow> mount_point (fs ! i) | Some m \<Rightarrow> m),
                 Mount (blk_device (fs ! i))
                   (case mount_point_arg of None \<Rightarrow> mount_point (fs ! i) | Some m \<Rightarrow> m)
                   (fs_type (fs ! i))])
       \<and> (scan_ok e \<and> fs_type (fs ! i) \<noteq> ''ramdisk'' \<and> mount_point (fs ! i) \<in> set (mounted w) \<longrightarrow>
            trace (snd (ensure_volume_unmounted e fs (Some i) detach w)) =
              trace w @ [if detach then UmountDetach (mount_point (fs ! i))
                         else Umount (mount_point (fs ! i))])"
proof (intro conjI impI)
  assume fits: "take 9 path = ''/storage/'' \<longrightarrow>
             length (takeWhile (\<lambda>c. c \<noteq> CHR ''/'') (drop 9 path)) < PATH_MAX"
  from ensure_path_unmounted_returns [OF fits, of e fs False w]
  obtain r w1 where u: "ensure_path_unmounted e fs path False w = Returns (r, w1)"
    by blast
  have d1: "dispatched w1 = dispatched w"
    using ensure_path_unmounted_dispatched [OF u] .
  obtain r2 w2 where k: "wipe_key_loc e (fs ! i) w1 = (r2, w2)"
    by (cases "wipe_key_loc e (fs ! i) w1") auto
  have d2: "dispatched w2 = dispatched w"
    using wipe_key_loc_dispatched [of e "fs ! i" w1] k d1 by simp
  show "\<exists>err w'. format_volume e fs path directory w = Returns (Inl err, w')
              \<and> dispatched w' = dispatched w"
    using assms u k d1 d2
    by (auto simp: format_volume_def Let_def split: sum.splits)
next
  assume "scan_ok e \<and> fs_type (fs ! i) \<in> {''ext4'', ''squashfs'', ''vfat'', ''f2fs''}"
  with assms show "trace (snd (ensure_path_mounted_at e fs path mount_point_arg w)) =
      trace w @
        [Mkdirs (case mount_point_arg of None \<Rightarrow> mount_point (fs ! i) | Some m \<Rightarrow> m),
         Mount (blk_device (fs ! i))
           (case mount_point_arg of None \<Rightarrow> mount_point (fs ! i) | Some m \<Rightarrow> m)
           (fs_type (fs ! i))]"
    by (auto simp: ensure_path_mounted_at_def os_mount_def Let_def trace_emit)
next
  assume "scan_ok e \<and> fs_type (fs ! i) \<noteq> ''ramdisk'' \<and> mount_point (fs ! i) \<in> set (mounted w)"
  then show "trace (snd (ensure_volume_unmounted e fs (Some i) detach w)) =
      trace w @ [if detach then UmountDetach (mount_point (fs ! i))
                 else Umount (mount_point (fs ! i))]"
    by (auto simp: ensure_volume_unmounted_def find_mounted_volume_by_mount_point_def
        unmount_mounted_volume_def unmount_mounted_volume_detach_def Let_def trace_emit)
qed

theorem C2_voldmanaged_witness:
  "volume_for_path example_env vold_fstab ''/mnt/usb'' = Some 0
   \<and> voldmanaged (vold_fstab ! 0)
   \<and> take 9 ''/mnt/usb'' \<noteq> ''/storage/''
   \<and> scan_ok example_env
   \<and> fs_type (vold_fstab ! 0) = ''ext4''
   \<and> mount_point (vold_fstab ! 0) \<in> set (mounted usb_world)
   \<and> (\<exists>err w'. format_volume example_env vold_fstab ''/mnt/usb'' None usb_world =
                   Returns (Inl err, w')
          \<and> dispatched w' = dispatched usb_world)
   \<and> trace (snd (ensure_path_mounted_at example_env vold_fstab ''/mnt/usb'' None usb_world)) =
       trace usb_world @ [Mkdirs ''/mnt/usb'', Mount ''/dev/block/sda1'' ''/mnt/usb'' ''ext4'']
   \<and> trace (snd (ensure_path_mounted_at example_env vold_fstab ''/mnt/usb'' (Some ''/mnt/alt'')
                     usb_world)) =
       trace usb_world @ [Mkdirs ''/mnt/alt'', Mount ''/dev/block/sda1'' ''/mnt/alt'' ''ext4'']
   \<and> trace (snd (ensure_volume_unmounted example_env vold_fstab (Some 0) False usb_world)) =
       trace usb_world @ [Umount ''/mnt/usb'']
   \<and> trace (snd (ensure_volume_unmounted example_env vold_fstab (Some 0) True usb_world)) =
       trace usb_world @ [UmountDetach ''/mnt/usb'']
   \<and> volume_for_path example_env storage_fstab ''/storage/usb'' = Some 0
   \<and> voldmanaged (storage_fstab ! 0)
   \<and> take 9 ''/storage/usb'' = ''/storage/''
   \<and> length (takeWhile (\<lambda>c. c \<noteq> CHR ''/'') (drop 9 ''/storage/usb'')) < PATH_MAX
   \<and> (\<exists>err w'. format_volume example_env storage_fstab ''/storage/usb'' None storage_world =
                   Returns (Inl err, w')
          \<and> dispatched w' = dispatched storage_world)"
proof -
  have a: "volume_for_path example_env vold_fstab ''/mnt/usb'' = Some 0"
    by code_simp
  have b: "voldmanaged (vold_fstab ! 0)"
    by code_simp
  have c: "scan_ok example_env" "fs_type (vold_fstab ! 0) = ''ext4''"
      "mount_point (vold_fstab ! 0) = ''/mnt/usb''" "blk_device (vold_fstab ! 0) = ''/dev/block/sda1''"
      "mounted usb_world = [''/mnt/usb'']"
    by code_simp+
  have p: "take 9 ''/mnt/usb'' \<noteq> ''/storage/''"
    by simp
  have a': "volume_for_path example_env storage_fstab ''/storage/usb'' = Some 0"
    by code_simp
  have b': "voldmanaged (storage_fstab ! 0)"
    by code_simp
  have p': "take 9 ''/storage/usb'' = ''/storage/''"
      "length (takeWhile (\<lambda>c. c \<noteq> CHR ''/'') (drop 9 ''/storage/usb'')) < PATH_MAX"
    by (simp_all add: PATH_MAX_def)
  have f1: "\<exists>err w'. format_volume example_env vold_fstab ''/mnt/usb'' None usb_world =
                   Returns (Inl err, w') \<and> dispatched w' = dispatched usb_world"
    using C2_voldmanaged_volume [OF a b, THEN conjunct1, of None usb_world] p by simp
  have m1: "trace (snd (ensure_path_mounted_at example_env vold_fstab ''/mnt/usb'' None usb_world)) =
       trace usb_world @ [Mkdirs ''/mnt/usb'', Mount ''/dev/block/sda1'' ''/mnt/usb'' ''ext4'']"
    using C2_voldmanaged_volume [OF a b, THEN conjunct2, THEN conjunct1, of None usb_world] c
    by simp
  have m2: "trace (snd (ensure_path_mounted_at example_env vold_fstab ''/mnt/usb''
                     (Some ''/mnt/alt'') usb_world)) =
       trace usb_world @ [Mkdirs ''/mnt/alt'', Mount ''/dev/block/sda1'' ''/mnt/alt'' ''ext4'']"
    using C2_voldmanaged_volume [OF a b, THEN conjunct2, THEN conjunct1,
      of "Some ''/mnt/alt''" usb_world] c
    by simp
  have u1: "trace (snd (ensure_volume_unmounted example_env vold_fstab (Some 0) False usb_world)) =
       trace usb_world @ [Umount ''/mnt/usb'']"
    using C2_voldmanaged_volume [OF a b, THEN conjunct2, THEN conjunct2, of usb_world False] c
    by simp
  have u2: "trace (snd (ensure_volume_unmounted example_env vold_fstab (Some 0) True usb_world)) =
       trace usb_world @ [UmountDetach ''/mnt/usb'']"
    using C2_voldmanaged_volume [OF a b, THEN conjunct2, THEN conjunct2, of usb_world True] c
    by simp
  have f2: "\<exists>err w'. format_volume example_env storage_fstab ''/storage/usb'' None storage_world =
                   Returns (Inl err, w') \<and> dispatched w' = dispatched storage_world"
    using C2_voldmanaged_volume [OF a' b', THEN conjunct1, of None storage_world] p' by simp
  from a b c p a' b' p' f1 m1 m2 u1 u2 f2 show ?thesis
    by simp
qed

text \<open>
  With the vold-managed volume mounted: \<open>ensure_path_mounted_at\<close> issues the OS mount
  call, \<open>ensure_volume_unmounted\<close> issues the unmount call, and \<open>format_volume\<close>
  rejects the volume only after unmounting it and wiping its \<open>key_loc\<close>.
\<close>

theorem C2_voldmanaged_counterexample:
  "voldmanaged (vold_fstab ! 0)
   \<and> volume_for_path example_env vold_fstab ''/mnt/usb'' = Some 0
   \<and> ensure_path_mounted_at example_env vold_fstab ''/mnt/usb'' None usb_world =
       (Inr (), \<lparr>mounted = [''/mnt/usb''],
                 trace = [Mkdirs ''/mnt/usb'',
                          Mount ''/dev/block/sda1'' ''/mnt/usb'' ''ext4'']\<rparr>)
   \<and> ensure_volume_unmounted example_env vold_fstab (Some 0) False usb_world =
       (Inr (), \<lparr>mounted = [], trace = [Umount ''/mnt/usb'']\<rparr>)
   \<and> format_volume example_env vold_fstab ''/mnt/usb'' None usb_world =
       Returns (Inl VoldVolume,
         \<lparr>mounted = [],
          trace = [Umount ''/mnt/usb'', OpenCreate ''/dev/block/sda2'',
                   WipeBlockDevice ''/dev/block/sda2'']\<rparr>)"
  by code_simp

section \<open>Filesystem-type detection\<close>

lemma entry_from_step:
  "k < length fs \<Longrightarrow>
   entry_from k fs path = (if mount_point (fs ! k) = path then Some k else entry_from (Suc k) fs path)"
  by (simp add: entry_from_def upt_conv_Cons)

lemma entry_from_end: "length fs \<le> k \<Longrightarrow> entry_from k fs path = None"
  by (simp add: entry_from_def)

lemma detect_loop_entry_from:
  "detect_loop fs path t (entry_from k fs path) =
     find (\<lambda>j. mount_point (fs ! j) = path \<and> fs_type (fs ! j) = t) [k ..< length fs]"
proof (induction "length fs - k" arbitrary: k)
  case 0
  then show ?case by (simp add: entry_from_end)
next
  case (Suc n)
  then have k: "k < length fs" and n: "n = length fs - Suc k"
    by auto
  from Suc.hyps(1) [OF n]
  have ih: "detect_loop fs path t (entry_from (Suc k) fs path) =
     find (\<lambda>j. mount_point (fs ! j) = path \<and> fs_type (fs ! j) = t) [Suc k ..< length fs]" .
  show ?case
    using k ih
    by (simp add: entry_from_step upt_conv_Cons fs_mgr_get_entry_for_mount_point_after_def)
qed

lemma entry_from_Some:
  "entry_from k fs path = Some r \<Longrightarrow> k \<le> r \<and> r < length fs \<and> mount_point (fs ! r) = path"
  by (auto simp: entry_from_def find_Some_iff)

text \<open>
  C4. Let the first entry of the mount point be \<open>r\<close>. If its configured type is not
  ext4, f2fs or vfat, detection returns it as it is. Otherwise: if the probe of its
  device fails, or finds the configured type, detection returns \<open>r\<close>; if the probe
  finds a different type, detection returns the first entry after \<open>r\<close> with the same
  mount point whose configured type is the detected one, and \<open>r\<close> when there is none.
\<close>

theorem C4_detect_fs:
  assumes "fs_mgr_get_entry_for_mount_point fs path = Some r"
  shows "(fs_type (fs ! r) \<notin> {''ext4'', ''f2fs'', ''vfat''} \<longrightarrow>
            get_entry_for_mount_point_detect_fs e fs path = Some r)
       \<and> (fs_type (fs ! r) \<in> {''ext4'', ''f2fs'', ''vfat''} \<longrightarrow>
            (case blkid_type e (blk_device (fs ! r)) of
               None \<Rightarrow> get_entry_for_mount_point_detect_fs e fs path = Some r
             | Some detected \<Rightarrow>
                 if detected = fs_type (fs ! r)
                 then get_entry_for_mount_point_detect_fs e fs path = Some r
                 else get_entry_for_mount_point_detect_fs e fs path =
                        (case find (\<lambda>j. mount_point (fs ! j) = path \<and> fs_type (fs ! j) = detected)
                                [Suc r ..< length fs] of
                           Some j \<Rightarrow> Some j
                         | None \<Rightarrow> Some r)))"
proof -
  have loop: "detect_loop fs path t (Some r) =
      find (\<lambda>j. mount_point (fs ! j) = path \<and> fs_type (fs ! j) = t) [Suc r ..< length fs]"
    if "t \<noteq> fs_type (fs ! r)" for t
    using that detect_loop_entry_from [of fs path t "Suc r"]
    by (simp add: fs_mgr_get_entry_for_mount_point_after_def)
  show ?thesis
    using assms loop
    by (auto simp: get_entry_for_mount_point_detect_fs_def split: option.splits)
qed

theorem C4_detect_fs_witness:
  "fs_mgr_get_entry_for_mount_point dual_fstab ''/data'' = Some 1
   \<and> fs_type (dual_fstab ! 1) = ''ext4''
   \<and> blkid_type f2fs_env (blk_device (dual_fstab ! 1)) = Some ''f2fs''
   \<and> fs_type (dual_fstab ! 2) = ''f2fs''
   \<and> get_entry_for_mount_point_detect_fs f2fs_env dual_fstab ''/data'' = Some 2
   \<and> fs_mgr_get_entry_for_mount_point dual_fstab ''/cache'' = Some 0
   \<and> blkid_type f2fs_env (blk_device (dual_fstab ! 0)) = None
   \<and> get_entry_for_mount_point_detect_fs f2fs_env dual_fstab ''/cache'' = Some 0
   \<and> fs_mgr_get_entry_for_mount_point example_fstab ''/tmp'' = Some 3
   \<and> fs_type (example_fstab ! 3) = ''ramdisk''
   \<and> get_entry_for_mount_point_detect_fs f2fs_env example_fstab ''/tmp'' = Some 3"
proof -
  have a: "fs_mgr_get_entry_for_mount_point dual_fstab ''/data'' = Some 1"
    by code_simp
  have b: "fs_type (dual_fstab ! 1) = ''ext4''"
      "blkid_type f2fs_env (blk_device (dual_fstab ! 1)) = Some ''f2fs''"
      "fs_type (dual_fstab ! 2) = ''f2fs''"
    by code_simp+
  have c: "find (\<lambda>j. mount_point (dual_fstab ! j) = ''/data'' \<and> fs_type (dual_fstab ! j) = ''f2fs'')
             [Suc 1 ..< length dual_fstab] = Some 2"
    by code_simp
  have d: "fs_mgr_get_entry_for_mount_point dual_fstab ''/cache'' = Some 0"
    by code_simp
  have e: "fs_type (dual_fstab ! 0) = ''ext4''"
      "blkid_type f2fs_env (blk_device (dual_fstab ! 0)) = None"
    by code_simp+
  have f: "fs_mgr_get_entry_for_mount_point example_fstab ''/tmp'' = Some 3"
    by code_simp
  have g: "fs_type (example_fstab ! 3) = ''ramdisk''"
    by code_simp
  from C4_detect_fs [OF a, of f2fs_env] C4_detect_fs [OF d, of f2fs_env]
       C4_detect_fs [OF f, of f2fs_env] a b c d e f g
  show ?thesis by simp
qed

section \<open>Path resolution\<close>

lemma find_last_of_None: "find_last_of s c = None \<longleftrightarrow> c \<notin> set s"
  by (induction s) (auto split: option.splits)

lemma find_last_of_Some:
  "find_last_of s c = Some i \<Longrightarrow> i < length s \<and> s ! i = c \<and> c \<notin> set (drop (Suc i) s)"
  by (induction s arbitrary: i) (auto split: option.splits if_splits simp: find_last_of_None)

lemma find_last_of_append:
  "c \<notin> set x \<Longrightarrow> find_last_of (p @ c # x) c = Some (length p)"
  by (induction p) (auto simp: find_last_of_None [THEN iffD2])

lemma slash_positions_None:
  "find_last_of s CHR ''/'' = None \<Longrightarrow> slash_positions s = []"
  by (auto simp: slash_positions_def find_last_of_None filter_empty_conv in_set_conv_nth)

lemma slash_positions_Some:
  assumes "find_last_of s CHR ''/'' = Some i"
  shows "slash_positions s = slash_positions (take i s) @ [i]"
proof -
  from find_last_of_Some [OF assms]
  have i: "i < length s" and c: "s ! i = CHR ''/''" and d: "CHR ''/'' \<notin> set (drop (Suc i) s)"
    by auto
  have split: "[0 ..< length s] = [0 ..< i] @ [i] @ [Suc i ..< length s]"
  proof -
    have "[0 ..< length s] = [0 ..< i] @ [i ..< length s]"
      using i upt_add_eq_append [of 0 i "length s - i"] by simp
    then show ?thesis
      using i by (simp add: upt_conv_Cons)
  qed
  have later: "filter (\<lambda>j. s ! j = CHR ''/'') [Suc i ..< length s] = []"
  proof -
    have "s ! j \<noteq> CHR ''/''" if "Suc i \<le> j" "j < length s" for j
    proof -
      have "s ! j = drop (Suc i) s ! (j - Suc i)"
        using that by simp
      moreover have "drop (Suc i) s ! (j - Suc i) \<in> set (drop (Suc i) s)"
        using that by (intro nth_mem) simp
      ultimately show ?thesis using d by metis
    qed
    then show ?thesis by (auto simp: filter_empty_conv)
  qed
  have earlier: "filter (\<lambda>j. s ! j = CHR ''/'') [0 ..< i] = slash_positions (take i s)"
    using i by (auto simp: slash_positions_def min_def intro: filter_cong)
  show ?thesis
    unfolding slash_positions_def [of s] split
    using c later earlier by simp
qed

lemma slash_positions_less: "j \<in> set (slash_positions s) \<Longrightarrow> j < length s"
  by (auto simp: slash_positions_def)

lemma candidates_no_slash:
  "find_last_of s CHR ''/'' = None \<Longrightarrow> candidates s = [s]"
  by (simp add: candidates_def slash_positions_None)

lemma candidates_slash_0:
  assumes "find_last_of s CHR ''/'' = Some 0"
  shows "candidates s = [s, ''/'']"
proof -
  have "slash_positions s = slash_positions [] @ [0]"
    using slash_positions_Some [OF assms] by simp
  then have "slash_positions s = [0]"
    by (simp add: slash_positions_def)
  then show ?thesis
    by (simp add: candidates_def)
qed

lemma candidates_slash:
  assumes "find_last_of s CHR ''/'' = Some i" and "0 < i"
  shows "candidates s = s # candidates (take i s)"
proof -
  have "map (\<lambda>j. if j = 0 then ''/'' else take j s) (rev (slash_positions (take i s))) =
        map (\<lambda>j. if j = 0 then ''/'' else take j (take i s)) (rev (slash_positions (take i s)))"
  proof (rule map_cong)
    fix j assume "j \<in> set (rev (slash_positions (take i s)))"
    then have "j \<in> set (slash_positions (take i s))"
      by simp
    then have "j < length (take i s)"
      by (rule slash_positions_less)
    then have "min j i = j"
      by simp
    then show "(if j = 0 then ''/'' else take j s) = (if j = 0 then ''/'' else take j (take i s))"
      by (simp add: min.commute)
  qed simp
  moreover have "slash_positions s = slash_positions (take i s) @ [i]"
    using assms(1) by (rule slash_positions_Some)
  ultimately show ?thesis
    using assms(2) by (simp add: candidates_def)
qed

lemma volume_for_path_loop_candidates:
  "volume_for_path_loop e fs str =
     first_match (get_entry_for_mount_point_detect_fs e fs) (candidates str)"
proof (induction e fs str rule: volume_for_path_loop.induct)
  case (1 e fs str)
  show ?case
  proof (cases "get_entry_for_mount_point_detect_fs e fs str")
    case (Some r)
    then show ?thesis
      by (simp add: volume_for_path_loop.simps [of e fs str] candidates_def)
  next
    case None
    note miss = None
    show ?thesis
    proof (cases "str = ''/''")
      case True
      with miss show ?thesis
        by (simp add: volume_for_path_loop.simps [of e fs "''/''"] candidates_def
            slash_positions_def)
    next
      case False
      note not_root = False
      show ?thesis
      proof (cases "find_last_of str CHR ''/''")
        case None
        with miss not_root show ?thesis
          by (simp add: volume_for_path_loop.simps [of e fs str] candidates_no_slash)
      next
        case (Some slash)
        show ?thesis
        proof (cases "slash = 0")
          case True
          have "volume_for_path_loop e fs ''/'' = get_entry_for_mount_point_detect_fs e fs ''/''"
            by (simp add: volume_for_path_loop.simps [of e fs "''/''"] split: option.splits)
          with miss not_root Some True show ?thesis
            by (simp add: volume_for_path_loop.simps [of e fs str] candidates_slash_0
                split: option.splits)
        next
          case False
          with "1.IH"(2) [OF miss not_root Some False] miss not_root Some show ?thesis
            by (simp add: volume_for_path_loop.simps [of e fs str] candidates_slash)
        qed
      qed
    qed
  qed
qed

lemma volume_for_path_step:
  assumes "mp \<noteq> []" and "CHR ''/'' \<notin> set x"
    and "get_entry_for_mount_point_detect_fs e fs (mp @ CHR ''/'' # x) = None"
  shows "volume_for_path e fs (mp @ CHR ''/'' # x) = volume_for_path e fs mp"
proof -
  have f: "find_last_of (mp @ CHR ''/'' # x) CHR ''/'' = Some (length mp)"
    using assms(2) by (rule find_last_of_append)
  have n: "mp @ CHR ''/'' # x \<noteq> ''/''"
    using assms(1) by (cases mp) auto
  show ?thesis
    using assms f n
    by (simp add: volume_for_path_def volume_for_path_loop.simps [of e fs "mp @ CHR ''/'' # x"])
qed

lemma nested_snoc: "nested mp (xs @ [x]) = nested mp xs @ CHR ''/'' # x"
  by (simp add: nested_def)

lemma nested_not_empty: "mp \<noteq> [] \<Longrightarrow> nested mp xs \<noteq> []"
  by (simp add: nested_def)

lemma volume_for_path_nested:
  assumes "mp \<noteq> []"
  shows "(\<forall>x \<in> set xs. CHR ''/'' \<notin> set x) \<Longrightarrow>
         (\<forall>k. 0 < k \<and> k \<le> length xs \<longrightarrow>
               get_entry_for_mount_point_detect_fs e fs (nested mp (take k xs)) = None) \<Longrightarrow>
         volume_for_path e fs (nested mp xs) = volume_for_path e fs mp"
proof (induction xs rule: rev_induct)
  case Nil
  then show ?case by (simp add: nested_def)
next
  case (snoc x xs)
  have miss: "get_entry_for_mount_point_detect_fs e fs (nested mp (xs @ [x])) = None"
    using snoc.prems(2) [rule_format, of "Suc (length xs)"] by simp
  have "volume_for_path e fs (nested mp (xs @ [x])) = volume_for_path e fs (nested mp xs)"
    unfolding nested_snoc
    using nested_not_empty [OF assms] snoc.prems(1) miss
    by (intro volume_for_path_step) (auto simp: nested_snoc)
  moreover have "volume_for_path e fs (nested mp xs) = volume_for_path e fs mp"
  proof (rule snoc.IH)
    show "\<forall>x \<in> set xs. CHR ''/'' \<notin> set x"
      using snoc.prems(1) by simp
    show "\<forall>k. 0 < k \<and> k \<le> length xs \<longrightarrow>
               get_entry_for_mount_point_detect_fs e fs (nested mp (take k xs)) = None"
    proof (intro allI impI)
      fix k assume k: "0 < k \<and> k \<le> length xs"
      with snoc.prems(2) [rule_format, of k] show
        "get_entry_for_mount_point_detect_fs e fs (nested mp (take k xs)) = None"
        by simp
    qed
  qed
  ultimately show ?case by simp
qed


text \<open>
  C3. An empty path is not found. For a non-empty path, \<open>volume_for_path\<close> returns
  what detection finds for the first candidate that is in the table - the path itself,
  then each ancestor obtained by trimming the last component, down to \<open>/\<close> - and
  not found when no candidate is in the table. So a path nested below \<open>mp\<close>, with no
  table entry for the nested path or for a directory between it and \<open>mp\<close>, resolves
  to the volume that \<open>mp\<close> resolves to.
\<close>

theorem C3_volume_for_path:
  "volume_for_path e fs [] = None
   \<and> (path \<noteq> [] \<longrightarrow>
         volume_for_path e fs path =
           first_match (get_entry_for_mount_point_detect_fs e fs) (candidates path))
   \<and> (mp \<noteq> [] \<and> (\<forall>x \<in> set xs. CHR ''/'' \<notin> set x)
        \<and> (\<forall>k. 0 < k \<and> k \<le> length xs \<longrightarrow>
               get_entry_for_mount_point_detect_fs e fs (nested mp (take k xs)) = None) \<longrightarrow>
         volume_for_path e fs (nested mp xs) = volume_for_path e fs mp)"
proof (intro conjI impI)
  show "volume_for_path e fs [] = None"
    by (simp add: volume_for_path_def)
next
  assume "path \<noteq> []"
  then show "volume_for_path e fs path =
      first_match (get_entry_for_mount_point_detect_fs e fs) (candidates path)"
    by (simp add: volume_for_path_def volume_for_path_loop_candidates)
next
  assume "mp \<noteq> [] \<and> (\<forall>x \<in> set xs. CHR ''/'' \<notin> set x)
        \<and> (\<forall>k. 0 < k \<and> k \<le> length xs \<longrightarrow>
               get_entry_for_mount_point_detect_fs e fs (nested mp (take k xs)) = None)"
  then show "volume_for_path e fs (nested mp xs) = volume_for_path e fs mp"
    using volume_for_path_nested [of mp xs e fs] by blast
qed

theorem C3_volume_for_path_witness:
  "candidates ''/cache/recovery/last_log'' =
     [''/cache/recovery/last_log'', ''/cache/recovery'', ''/cache'', ''/'']
   \<and> nested ''/cache'' [''recovery'', ''last_log''] = ''/cache/recovery/last_log''
   \<and> get_entry_for_mount_point_detect_fs example_env example_fstab ''/cache/recovery/last_log'' = None
   \<and> get_entry_for_mount_point_detect_fs example_env example_fstab ''/cache/recovery'' = None
   \<and> first_match (get_entry_for_mount_point_detect_fs example_env example_fstab)
        (candidates ''/cache/recovery/last_log'') = Some 1
   \<and> volume_for_path example_env example_fstab ''/cache/recovery/last_log'' = Some 1
   \<and> volume_for_path example_env example_fstab ''/cache'' = Some 1"
proof -
  let ?p = "''/cache/recovery/last_log''"
  let ?xs = "[''recovery'', ''last_log'']"
  have a: "candidates ?p = [?p, ''/cache/recovery'', ''/cache'', ''/'']"
    by code_simp
  have b: "nested ''/cache'' ?xs = ?p"
    by code_simp
  have c1: "get_entry_for_mount_point_detect_fs example_env example_fstab ''/cache/recovery'' = None"
    by code_simp
  have c2: "get_entry_for_mount_point_detect_fs example_env example_fstab ?p = None"
    by code_simp
  have d: "first_match (get_entry_for_mount_point_detect_fs example_env example_fstab)
             (candidates ?p) = Some 1"
    by code_simp
  have comps: "\<forall>x \<in> set ?xs. CHR ''/'' \<notin> set x"
    by simp
  have miss: "\<forall>k. 0 < k \<and> k \<le> length ?xs \<longrightarrow>
      get_entry_for_mount_point_detect_fs example_env example_fstab
        (nested ''/cache'' (take k ?xs)) = None"
  proof (intro allI impI)
    fix k :: nat
    assume "0 < k \<and> k \<le> length ?xs"
    then have "k = 1 \<or> k = 2"
      by auto
    then show "get_entry_for_mount_point_detect_fs example_env example_fstab
        (nested ''/cache'' (take k ?xs)) = None"
      using c1 c2 by (auto simp: nested_def)
  qed
  have e: "volume_for_path example_env example_fstab ''/cache'' = Some 1"
    by code_simp
  from C3_volume_for_path [of example_env example_fstab ?p "''/cache''" ?xs]
       a b c1 c2 d comps miss e
  show ?thesis by simp
qed

section \<open>Target length of a format\<close>

lemma sint_of_range:
  fixes k :: int
  assumes "- (2 ^ 63) \<le> k" and "k < 2 ^ 63"
  shows "sint (word_of_int k :: 64 word) = k"
  using assms by (simp add: sint_sbintrunc' signed_take_bit_int_eq_self)

lemma sint_diff_exact:
  fixes a r :: "64 word"
  assumes "- (2 ^ 63) \<le> uint a - uint r" and "uint a - uint r < 2 ^ 63"
  shows "sint (a - r) = uint a - uint r"
proof -
  have "a - r = word_of_int (uint a - uint r)"
    by simp
  then show ?thesis
    using sint_of_range [OF assms] by simp
qed

lemma uint_of_sint_range:
  fixes w :: "64 word"
  shows "uint w = sint w mod 2 ^ 64"
proof -
  have "uint (word_of_int (sint w) :: 64 word) = sint w mod 2 ^ LENGTH(64)"
    by (rule uint_word_of_int)
  moreover have "(word_of_int (sint w) :: 64 word) = w"
    by simp
  ultimately show ?thesis
    by simp
qed

lemma uint_eq_sint:
  fixes w :: "64 word"
  assumes "0 \<le> sint w"
  shows "uint w = sint w"
proof -
  have "sint w < 2 ^ 63"
    using sint_lt [of w] by simp
  with assms show ?thesis
    by (simp add: uint_of_sint_range)
qed

lemma uint_neg_length:
  fixes l :: "64 word"
  assumes "sint l < 0"
  shows "uint (- l) = - sint l"
proof -
  have "- (2 ^ 63) \<le> sint l"
    using sint_ge [of l] by simp
  moreover have "uint (- l) = (- sint l) mod 2 ^ 64"
    using uint_of_sint_range [of "- l"] uint_of_sint_range [of l]
    by (simp add: uint_word_ariths mod_minus_eq)
  ultimately show ?thesis
    using assms by simp
qed

lemma get_file_size_block:
  "get_file_size (BlockDevice b) r =
     (if uint b < uint r \<or> 2 ^ 63 \<le> uint b then 0 else b - r)"
  by (auto simp: get_file_size_def INT64_MAX_def word_less_def)

lemma sint_block_size:
  fixes b r :: "64 word"
  assumes "uint r \<le> uint b" and "uint b < 2 ^ 63"
  shows "sint (b - r) = uint b - uint r"
proof (rule sint_diff_exact)
  show "- (2 ^ 63) \<le> uint b - uint r"
    using assms by simp
  show "uint b - uint r < 2 ^ 63"
    using assms uint_ge_0 [of r] by linarith
qed

lemma sint_regular_size:
  fixes st r :: "64 word"
  assumes "0 \<le> sint st" and "uint r \<le> 2 ^ 63"
  shows "sint (st - r) = sint st - uint r"
proof -
  have u: "uint st = sint st"
    using assms(1) by (rule uint_eq_sint)
  have "sint st < 2 ^ 63"
    using sint_lt [of st] by simp
  then have "sint (st - r) = uint st - uint r"
    using assms u uint_ge_0 [of r] by (intro sint_diff_exact) linarith+
  with u show ?thesis by simp
qed


lemma sized_block:
  fixes b r :: "64 word"
  assumes "uint r \<le> 2 ^ 63"
  shows "sint (get_file_size (BlockDevice b) r) =
           (if 2 ^ 63 \<le> uint b \<or> uint b < uint r then 0 else uint b - uint r)"
  using sint_block_size [of r b] by (auto simp: get_file_size_block)

lemma sized_regular:
  fixes st r :: "64 word"
  assumes "0 \<le> sint st" and "uint r \<le> 2 ^ 63"
  shows "sint (get_file_size (RegularFile st) r) = sint st - uint r"
  using sint_regular_size [OF assms] by (simp add: get_file_size_def)

lemma compute_length_reserved:
  assumes "\<not> 0 < sint (length_bytes v)"
    and "sint (length_bytes v) < 0 \<or> key_loc v = Some ''footer''"
  shows "compute_length e v =
     (case open_rdonly e (blk_device v) of
        None \<Rightarrow> Inl BlkDeviceOpenFailed
      | Some fd \<Rightarrow>
          if sint (get_file_size fd
                (if length_bytes v \<noteq> 0 then - length_bytes v else CRYPT_FOOTER_OFFSET e)) \<le> 0
          then Inl InvalidSize
          else Inr (get_file_size fd
                (if length_bytes v \<noteq> 0 then - length_bytes v else CRYPT_FOOTER_OFFSET e)))"
  using assms by (auto simp: compute_length_def Let_def split: option.splits)

text \<open>
  C5. A positive configured length is the target as it is, whatever the device. For a
  negative length, and for length zero with \<open>key_loc\<close> "footer", the reserve is the
  absolute value of the length or the footer reservation: the computation fails when
  the device cannot be opened, and otherwise the target is the size of the file or
  block device minus the reserve when that is a positive \<open>int64_t\<close>, and the
  computation fails when it is not (a size that cannot be read, or a block device of
  \<open>2^63\<close> bytes or more, counts as no size). Otherwise the target is zero.
\<close>

theorem C5_compute_length:
  "(0 < sint (length_bytes v) \<longrightarrow> compute_length e v = Inr (length_bytes v))
   \<and> (sint (length_bytes v) < 0
        \<or> (length_bytes v = 0 \<and> key_loc v = Some ''footer'' \<and> 0 \<le> sint (CRYPT_FOOTER_OFFSET e)) \<longrightarrow>
       (let reserve = (if length_bytes v \<noteq> 0 then \<bar>sint (length_bytes v)\<bar>
                       else sint (CRYPT_FOOTER_OFFSET e))
        in case open_rdonly e (blk_device v) of
             None \<Rightarrow> compute_length e v = Inl BlkDeviceOpenFailed
           | Some StatFailed \<Rightarrow> compute_length e v = Inl InvalidSize
           | Some OtherFile \<Rightarrow> compute_length e v = Inl InvalidSize
           | Some (RegularFile st_size) \<Rightarrow>
               0 \<le> sint st_size \<longrightarrow>
               (if sint st_size - reserve \<le> 0 then compute_length e v = Inl InvalidSize
                else \<exists>len. compute_length e v = Inr len \<and> sint len = sint st_size - reserve)
           | Some (BlockDevice block_device_size) \<Rightarrow>
               (if 2 ^ 63 \<le> uint block_device_size \<or> uint block_device_size - reserve \<le> 0
                then compute_length e v = Inl InvalidSize
                else \<exists>len. compute_length e v = Inr len
                       \<and> sint len = uint block_device_size - reserve)))
   \<and> (length_bytes v = 0 \<and> key_loc v \<noteq> Some ''footer'' \<longrightarrow> compute_length e v = Inr 0)"
proof (intro conjI impI)
  assume "0 < sint (length_bytes v)"
  then show "compute_length e v = Inr (length_bytes v)"
    by (simp add: compute_length_def)
next
  assume "length_bytes v = 0 \<and> key_loc v \<noteq> Some ''footer''"
  then show "compute_length e v = Inr 0"
    by (simp add: compute_length_def)
next
  assume a: "sint (length_bytes v) < 0
        \<or> (length_bytes v = 0 \<and> key_loc v = Some ''footer'' \<and> 0 \<le> sint (CRYPT_FOOTER_OFFSET e))"
  define r where "r = (if length_bytes v \<noteq> 0 then - length_bytes v else CRYPT_FOOTER_OFFSET e)"
  define reserve where "reserve = (if length_bytes v \<noteq> 0 then \<bar>sint (length_bytes v)\<bar>
                       else sint (CRYPT_FOOTER_OFFSET e))"
  have np: "\<not> 0 < sint (length_bytes v)"
    using a by auto
  have br: "sint (length_bytes v) < 0 \<or> key_loc v = Some ''footer''"
    using a by auto
  have ur: "uint r = reserve"
  proof (cases "length_bytes v = 0")
    case True
    with a show ?thesis
      by (simp add: r_def reserve_def uint_eq_sint)
  next
    case False
    with a have "sint (length_bytes v) < 0"
      by auto
    with False show ?thesis
      by (simp add: r_def reserve_def uint_neg_length)
  qed
  have rb: "uint r \<le> 2 ^ 63"
  proof (cases "length_bytes v = 0")
    case True
    with a have "0 \<le> sint (CRYPT_FOOTER_OFFSET e)"
      by auto
    then have "uint (CRYPT_FOOTER_OFFSET e) = sint (CRYPT_FOOTER_OFFSET e)"
      by (rule uint_eq_sint)
    with True show ?thesis
      using sint_lt [of "CRYPT_FOOTER_OFFSET e"] by (simp add: r_def)
  next
    case False
    with a have "sint (length_bytes v) < 0"
      by auto
    with False show ?thesis
      using sint_ge [of "length_bytes v"] by (simp add: r_def uint_neg_length)
  qed
  have c: "compute_length e v =
     (case open_rdonly e (blk_device v) of
        None \<Rightarrow> Inl BlkDeviceOpenFailed
      | Some fd \<Rightarrow> if sint (get_file_size fd r) \<le> 0 then Inl InvalidSize
                   else Inr (get_file_size fd r))"
    unfolding r_def using np br by (rule compute_length_reserved)
  have "case open_rdonly e (blk_device v) of
             None \<Rightarrow> compute_length e v = Inl BlkDeviceOpenFailed
           | Some StatFailed \<Rightarrow> compute_length e v = Inl InvalidSize
           | Some OtherFile \<Rightarrow> compute_length e v = Inl InvalidSize
           | Some (RegularFile st_size) \<Rightarrow>
               0 \<le> sint st_size \<longrightarrow>
               (if sint st_size - reserve \<le> 0 then compute_length e v = Inl InvalidSize
                else \<exists>len. compute_length e v = Inr len \<and> sint len = sint st_size - reserve)
           | Some (BlockDevice block_device_size) \<Rightarrow>
               (if 2 ^ 63 \<le> uint block_device_size \<or> uint block_device_size - reserve \<le> 0
                then compute_length e v = Inl InvalidSize
                else \<exists>len. compute_length e v = Inr len
                       \<and> sint len = uint block_device_size - reserve)"
  proof (cases "open_rdonly e (blk_device v)")
    case None
    with c show ?thesis by simp
  next
    case (Some fd)
    show ?thesis
    proof (cases fd)
      case StatFailed
      with c Some show ?thesis by (simp add: get_file_size_def)
    next
      case OtherFile
      with c Some show ?thesis by (simp add: get_file_size_def)
    next
      case (RegularFile st)
      show ?thesis
        using c Some RegularFile sized_regular [of st r] rb ur by auto
    next
      case (BlockDevice b)
      show ?thesis
        using c Some BlockDevice sized_block [OF rb, of b] ur by auto
    qed
  qed
  then show "let reserve = (if length_bytes v \<noteq> 0 then \<bar>sint (length_bytes v)\<bar>
                       else sint (CRYPT_FOOTER_OFFSET e))
        in case open_rdonly e (blk_device v) of
             None \<Rightarrow> compute_length e v = Inl BlkDeviceOpenFailed
           | Some StatFailed \<Rightarrow> compute_length e v = Inl InvalidSize
           | Some OtherFile \<Rightarrow> compute_length e v = Inl InvalidSize
           | Some (RegularFile st_size) \<Rightarrow>
               0 \<le> sint st_size \<longrightarrow>
               (if sint st_size - reserve \<le> 0 then compute_length e v = Inl InvalidSize
                else \<exists>len. compute_length e v = Inr len \<and> sint len = sint st_size - reserve)
           | Some (BlockDevice block_device_size) \<Rightarrow>
               (if 2 ^ 63 \<le> uint block_device_size \<or> uint block_device_size - reserve \<le> 0
                then compute_length e v = Inl InvalidSize
                else \<exists>len. compute_length e v = Inr len
                       \<and> sint len = uint block_device_size - reserve)"
    unfolding reserve_def Let_def .
qed


theorem C5_compute_length_witness:
  "sint (length_bytes (sized_vol 512)) = 512
   \<and> compute_length example_env (sized_vol 512) = Inr 512
   \<and> compute_length file_env (sized_vol 512) = Inr 512
   \<and> sint (length_bytes (sized_vol (- 1024))) = - 1024
   \<and> open_rdonly example_env (blk_device (sized_vol (- 1024))) = Some (BlockDevice 2048)
   \<and> compute_length example_env (sized_vol (- 1024)) = Inr 1024
   \<and> (\<exists>len. compute_length example_env (sized_vol (- 1024)) = Inr len \<and> sint len = 2048 - 1024)
   \<and> length_bytes footer_vol = 0
   \<and> key_loc footer_vol = Some ''footer''
   \<and> sint (CRYPT_FOOTER_OFFSET file_env) = 16384
   \<and> open_rdonly file_env (blk_device footer_vol) = Some (RegularFile 1048576)
   \<and> (\<exists>len. compute_length file_env footer_vol = Inr len \<and> sint len = 1048576 - 16384)
   \<and> compute_length example_env footer_vol = Inl InvalidSize
   \<and> length_bytes (sized_vol 0) = 0
   \<and> key_loc (sized_vol 0) = None
   \<and> compute_length example_env (sized_vol 0) = Inr 0"
proof -
  have l: "length_bytes (sized_vol n) = n" "key_loc (sized_vol n) = None"
      "blk_device (sized_vol n) = ''/dev/block/userdata''" for n
    by (simp_all add: sized_vol_def vol_def)
  have f: "length_bytes footer_vol = 0" "key_loc footer_vol = Some ''footer''"
      "blk_device footer_vol = ''/dev/block/userdata''"
    by (simp_all add: footer_vol_def vol_def)
  have o: "open_rdonly example_env d = Some (BlockDevice 2048)"
      "open_rdonly file_env d = Some (RegularFile 1048576)"
      "CRYPT_FOOTER_OFFSET file_env = 16384" "CRYPT_FOOTER_OFFSET example_env = 16384" for d
    by (simp_all add: example_env_def file_env_def)
  have p1: "compute_length example_env (sized_vol 512) = Inr 512"
    using C5_compute_length [of "sized_vol 512" example_env] by (simp add: l)
  have p2: "compute_length file_env (sized_vol 512) = Inr 512"
    using C5_compute_length [of "sized_vol 512" file_env] by (simp add: l)
  have n1: "\<exists>len. compute_length example_env (sized_vol (- 1024)) = Inr len \<and> sint len = 2048 - 1024"
    using C5_compute_length [of "sized_vol (- 1024)" example_env, THEN conjunct2, THEN conjunct1]
    by (simp add: l o)
  have n2: "compute_length example_env (sized_vol (- 1024)) = Inr 1024"
    by (simp add: compute_length_def get_file_size_def INT64_MAX_def l o)
  have f1: "\<exists>len. compute_length file_env footer_vol = Inr len \<and> sint len = 1048576 - 16384"
    using C5_compute_length [of footer_vol file_env, THEN conjunct2, THEN conjunct1]
    by (simp add: f o)
  have f2: "compute_length example_env footer_vol = Inl InvalidSize"
    using C5_compute_length [of footer_vol example_env, THEN conjunct2, THEN conjunct1]
    by (simp add: f o)
  have z: "compute_length example_env (sized_vol 0) = Inr 0"
    using C5_compute_length [of "sized_vol 0" example_env] by (simp add: l)
  show ?thesis
    using p1 p2 n1 n2 f1 f2 z by (simp add: l f o)
qed

section \<open>Unmount by path\<close>

lemma storage_label_of:
  assumes "CHR ''/'' \<notin> set lbl" and "length lbl < PATH_MAX"
    and "rest = [] \<or> hd rest = CHR ''/''"
  shows "storage_label (''/storage/'' @ lbl @ rest) = Some lbl"
proof -
  have "takeWhile (\<lambda>c. c \<noteq> CHR ''/'') rest = []"
    using assms(3) by (cases rest) auto
  moreover have "takeWhile (\<lambda>c. c \<noteq> CHR ''/'') (lbl @ rest) =
      lbl @ takeWhile (\<lambda>c. c \<noteq> CHR ''/'') rest"
    using assms(1) by (intro takeWhile_append2) auto
  ultimately have "takeWhile (\<lambda>c. c \<noteq> CHR ''/'') (lbl @ rest) = lbl"
    by simp
  then show ?thesis
    using assms(2) by (simp add: storage_label_def)
qed

text \<open>
  For a path that begins with \<open>/storage/\<close>, \<open>ensure_path_unmounted\<close> takes the
  text between the prefix and the next \<open>'/'\<close> (or the end of the path) as a label, for
  a label that fits the \<open>PATH_MAX\<close> buffer, and unmounts the volume that
  \<open>volume_for_label\<close> returns for it; every other path is resolved by
  \<open>volume_for_path\<close>.
\<close>

lemma ensure_path_unmounted_by_label:
  "(CHR ''/'' \<notin> set lbl \<and> length lbl < PATH_MAX \<and> (rest = [] \<or> hd rest = CHR ''/'') \<longrightarrow>
      ensure_path_unmounted e fs (''/storage/'' @ lbl @ rest) detach w =
        Returns (ensure_volume_unmounted e fs (volume_for_label fs lbl) detach w))
   \<and> (take 9 path \<noteq> ''/storage/'' \<longrightarrow>
        ensure_path_unmounted e fs path detach w =
          Returns (ensure_volume_unmounted e fs (volume_for_path e fs path) detach w))"
proof (intro conjI impI)
  assume "CHR ''/'' \<notin> set lbl \<and> length lbl < PATH_MAX \<and> (rest = [] \<or> hd rest = CHR ''/'')"
  then have "storage_label (''/storage/'' @ lbl @ rest) = Some lbl"
    by (intro storage_label_of) auto
  then show "ensure_path_unmounted e fs (''/storage/'' @ lbl @ rest) detach w =
        Returns (ensure_volume_unmounted e fs (volume_for_label fs lbl) detach w)"
    by (simp add: ensure_path_unmounted_def)
next
  assume "take 9 path \<noteq> ''/storage/''"
  then show "ensure_path_unmounted e fs path detach w =
          Returns (ensure_volume_unmounted e fs (volume_for_path e fs path) detach w)"
    by (simp add: ensure_path_unmounted_def)
qed

lemma ensure_path_unmounted_by_label_example:
  "''/storage/'' @ ''MYLABEL'' @ ''/subdir'' = ''/storage/MYLABEL/subdir''
   \<and> CHR ''/'' \<notin> set ''MYLABEL''
   \<and> length ''MYLABEL'' < PATH_MAX
   \<and> volume_for_label label_fstab ''MYLABEL'' = Some 1
   \<and> ensure_path_unmounted example_env label_fstab ''/storage/MYLABEL/subdir'' False sdcard_world =
       Returns (ensure_volume_unmounted example_env label_fstab
                  (volume_for_label label_fstab ''MYLABEL'') False sdcard_world)
   \<and> ensure_path_unmounted example_env label_fstab ''/storage/MYLABEL/subdir'' False sdcard_world =
       Returns (Inr (), \<lparr>mounted = [''/cache''], trace = [Umount ''/mnt/sdcard'']\<rparr>)
   \<and> take 9 ''/cache/recovery'' \<noteq> ''/storage/''
   \<and> volume_for_path example_env label_fstab ''/cache/recovery'' = Some 0
   \<and> ensure_path_unmounted example_env label_fstab ''/cache/recovery'' False sdcard_world =
       Returns (ensure_volume_unmounted example_env label_fstab
                  (volume_for_path example_env label_fstab ''/cache/recovery'') False sdcard_world)"
proof -
  have a: "CHR ''/'' \<notin> set ''MYLABEL''" "length ''MYLABEL'' < PATH_MAX"
      "take 9 ''/cache/recovery'' \<noteq> ''/storage/''"
    by (simp_all add: PATH_MAX_def)
  have b: "volume_for_label label_fstab ''MYLABEL'' = Some 1"
    by code_simp
  have c: "ensure_path_unmounted example_env label_fstab ''/storage/MYLABEL/subdir'' False
             sdcard_world =
           Returns (Inr (), \<lparr>mounted = [''/cache''], trace = [Umount ''/mnt/sdcard'']\<rparr>)"
    by code_simp
  have d: "volume_for_path example_env label_fstab ''/cache/recovery'' = Some 0"
    by code_simp
  from ensure_path_unmounted_by_label [of "''MYLABEL''" "''/subdir''" example_env label_fstab False
         sdcard_world "''/cache/recovery''"] a b c d
  show ?thesis by simp
qed

text \<open>
  C9. The label of a \<open>/storage/\<close> path is copied into \<open>label[PATH_MAX]\<close> with no
  test of its length. For the path \<open>/storage/\<close> followed by 4096 characters
  \<open>A\<close> the copy overruns the buffer: whatever the table, no volume is looked up by
  label and the call does not return a result.
\<close>

theorem C9_label_buffer_overrun:
  "ensure_path_unmounted e fs (''/storage/'' @ replicate 4096 CHR ''A'') detach w = BufferOverrun"
proof -
  have "takeWhile (\<lambda>c. c \<noteq> CHR ''/'') (replicate 4096 CHR ''A'') = replicate 4096 CHR ''A''"
    by (simp add: takeWhile_replicate)
  then have "storage_label (''/storage/'' @ replicate 4096 CHR ''A'') = None"
    by (simp add: storage_label_def PATH_MAX_def)
  then show ?thesis
    by (simp add: ensure_path_unmounted_def)
qed

section \<open>Install-mount setup\<close>

lemma setup_install_mounts_loop_steps:
  "setup_install_mounts_loop e fs i n w =
     run_until_failure (map (install_step e fs) [i ..< i + n]) w"
proof (induction n arbitrary: i w)
  case 0
  then show ?case by simp
next
  case (Suc n)
  have range: "[i ..< i + Suc n] = i # [Suc i ..< Suc i + n]"
    by (simp add: upt_conv_Cons)
  let ?mp = "mount_point (fs ! i)"
  consider (root) "?mp = ''/''"
    | (mount) "?mp \<noteq> ''/''" "?mp = ''/tmp'' \<or> ?mp = ''/cache''"
    | (unmount) "?mp \<noteq> ''/''" "?mp \<noteq> ''/tmp''" "?mp \<noteq> ''/cache''"
    by blast
  then show ?case
  proof cases
    case root
    then show ?thesis
      unfolding range by (simp add: Suc.IH install_step_def install_action_for_def)
  next
    case mount
    obtain r w1 where m: "ensure_path_mounted e fs ?mp w = (r, w1)"
      by (cases "ensure_path_mounted e fs ?mp w") auto
    from mount have a: "install_action_for ?mp = EnsureMounted"
      by (auto simp: install_action_for_def)
    show ?thesis
      unfolding range using mount m a
      by (cases r) (simp_all add: Suc.IH install_step_def Let_def)
  next
    case unmount
    obtain r w1 where u: "ensure_volume_unmounted e fs (Some i) (?mp = ''/data'') w = (r, w1)"
      by (cases "ensure_volume_unmounted e fs (Some i) (?mp = ''/data'') w") auto
    from unmount have a: "install_action_for ?mp = EnsureUnmounted (?mp = ''/data'')"
      by (simp add: install_action_for_def)
    show ?thesis
      unfolding range using unmount u a
      by (cases r) (simp_all add: Suc.IH install_step_def Let_def)
  qed
qed

lemma detect_loop_Some:
  "detect_loop fs path t (Some r) =
     (if fs_type (fs ! r) \<noteq> t
      then find (\<lambda>j. mount_point (fs ! j) = path \<and> fs_type (fs ! j) = t) [Suc r ..< length fs]
      else Some r)"
  using detect_loop_entry_from [of fs path t "Suc r"]
  by (simp add: fs_mgr_get_entry_for_mount_point_after_def)

lemma detect_fs_mount_point:
  assumes "get_entry_for_mount_point_detect_fs e fs path = Some j"
  shows "mount_point (fs ! j) = path"
proof -
  from assms obtain r where r: "fs_mgr_get_entry_for_mount_point fs path = Some r"
    by (auto simp: get_entry_for_mount_point_detect_fs_def split: option.splits)
  then have mr: "mount_point (fs ! r) = path"
    by (auto simp: fs_mgr_get_entry_for_mount_point_def dest: entry_from_Some)
  from assms r have "j = r \<or> (\<exists>t. find (\<lambda>j. mount_point (fs ! j) = path \<and> fs_type (fs ! j) = t)
        [Suc r ..< length fs] = Some j)"
    by (simp add: get_entry_for_mount_point_detect_fs_def detect_loop_Some
        del: detect_loop.simps split: option.splits if_splits) blast+
  with mr show ?thesis
    by (auto simp: find_Some_iff)
qed

lemma detect_fs_found:
  "fs_mgr_get_entry_for_mount_point fs path = Some r \<Longrightarrow>
   \<exists>j. get_entry_for_mount_point_detect_fs e fs path = Some j"
  by (simp add: get_entry_for_mount_point_detect_fs_def split: option.splits)

lemma volume_for_path_mount_point:
  assumes "i < length fs" and "mount_point (fs ! i) \<noteq> []"
  shows "\<exists>j. volume_for_path e fs (mount_point (fs ! i)) = Some j
             \<and> mount_point (fs ! j) = mount_point (fs ! i)"
proof -
  have "i \<in> set [0 ..< length fs]"
    using assms(1) by simp
  then have "entry_from 0 fs (mount_point (fs ! i)) \<noteq> None"
    unfolding entry_from_def by (auto simp: find_None_iff)
  then obtain r where "fs_mgr_get_entry_for_mount_point fs (mount_point (fs ! i)) = Some r"
    by (auto simp: fs_mgr_get_entry_for_mount_point_def)
  then obtain j where j: "get_entry_for_mount_point_detect_fs e fs (mount_point (fs ! i)) = Some j"
    using detect_fs_found by blast
  then have "volume_for_path e fs (mount_point (fs ! i)) = Some j"
    using assms(2)
    by (simp add: volume_for_path_def volume_for_path_loop.simps [of e fs "mount_point (fs ! i)"])
  with detect_fs_mount_point [OF j] show ?thesis
    by simp
qed


lemma ensure_path_mounted_at_trace:
  assumes "volume_for_path e fs path = Some j"
  shows "trace (snd (ensure_path_mounted_at e fs path None w)) = trace w
       \<or> trace (snd (ensure_path_mounted_at e fs path None w)) =
            trace w @ [Mkdirs (mount_point (fs ! j))]
       \<or> trace (snd (ensure_path_mounted_at e fs path None w)) =
            trace w @ [Mkdirs (mount_point (fs ! j)),
                       Mount (blk_device (fs ! j)) (mount_point (fs ! j)) (fs_type (fs ! j))]"
  using assms
  by (simp add: ensure_path_mounted_at_def os_mount_def Let_def trace_emit)

lemma install_step_events:
  assumes "i < length fs"
  shows "\<exists>evs. trace (snd (install_step e fs i w)) = trace w @ evs \<and> list_all install_event_ok evs"
proof -
  let ?mp = "mount_point (fs ! i)"
  consider (root) "?mp = ''/''"
    | (mount) "?mp \<noteq> ''/''" "?mp = ''/tmp'' \<or> ?mp = ''/cache''"
    | (unmount) "?mp \<noteq> ''/''" "?mp \<noteq> ''/tmp''" "?mp \<noteq> ''/cache''"
    by blast
  then show ?thesis
  proof cases
    case root
    then show ?thesis
      by (simp add: install_step_def install_action_for_def)
  next
    case mount
    then have ne: "?mp \<noteq> []"
      by auto
    from volume_for_path_mount_point [OF assms ne, of e]
    obtain j where j: "volume_for_path e fs ?mp = Some j" "mount_point (fs ! j) = ?mp"
      by blast
    have t: "trace (snd (install_step e fs i w)) =
        trace (snd (ensure_path_mounted_at e fs ?mp None w))"
      using mount
      by (auto simp: install_step_def install_action_for_def ensure_path_mounted_def
          split: prod.splits sum.splits)
    from ensure_path_mounted_at_trace [OF j(1), of w] show ?thesis
      unfolding t j(2) using mount(2) by (elim disjE) auto
  next
    case unmount
    have t: "trace (snd (install_step e fs i w)) =
        trace (snd (ensure_volume_unmounted e fs (Some i) (?mp = ''/data'') w))"
      using unmount
      by (auto simp: install_step_def install_action_for_def split: prod.splits sum.splits)
    from ensure_volume_unmounted_trace [of e fs "Some i" "?mp = ''/data''" w] show ?thesis
      unfolding t using unmount by (elim disjE exE) auto
  qed
qed

lemma run_until_failure_events:
  assumes "\<And>step w. step \<in> set steps \<Longrightarrow>
             \<exists>evs. trace (snd (step w)) = trace w @ evs \<and> list_all P evs"
  shows "\<exists>evs. trace (snd (run_until_failure steps w)) = trace w @ evs \<and> list_all P evs"
  using assms
proof (induction steps arbitrary: w)
  case Nil
  then show ?case by simp
next
  case (Cons step steps)
  obtain r w1 where s: "step w = (r, w1)"
    by (cases "step w") auto
  from Cons.prems [of step w] s
  obtain evs1 where e1: "trace w1 = trace w @ evs1" "list_all P evs1"
    by auto
  show ?case
  proof (cases r)
    case (Inl err)
    with s e1 show ?thesis by auto
  next
    case (Inr u)
    have "\<exists>evs. trace (snd (run_until_failure steps w1)) = trace w1 @ evs \<and> list_all P evs"
      by (rule Cons.IH) (simp add: Cons.prems)
    then obtain evs2 where
      e2: "trace (snd (run_until_failure steps w1)) = trace w1 @ evs2" "list_all P evs2"
      by blast
    have "trace (snd (run_until_failure (step # steps) w)) = trace w @ (evs1 @ evs2)"
      using s Inr e1 e2 by simp
    moreover have "list_all P (evs1 @ evs2)"
      using e1 e2 by simp
    ultimately show ?thesis by blast
  qed
qed

text \<open>
  C8. With no table loaded, \<open>setup_install_mounts\<close> fails at once and does nothing.
  With a table, it runs one step per volume in table order and stops with a failure at
  the first step that fails: nothing for the mount point \<open>/\<close>, ensure-mounted for
  \<open>/tmp\<close> and \<open>/cache\<close>, and ensure-unmounted for every other mount point, with
  detach for \<open>/data\<close> only. So a directory is created or a mount issued for
  \<open>/tmp\<close> and \<open>/cache\<close> only, a lazy unmount for \<open>/data\<close> only, a normal
  unmount never for \<open>/\<close>, \<open>/tmp\<close>, \<open>/cache\<close> or \<open>/data\<close>, and no other call
  is made.
\<close>

theorem C8_setup_install_mounts:
  "setup_install_mounts e None w = (Inl NoFstab, w)
   \<and> setup_install_mounts e (Some fs) w =
       run_until_failure (map (install_step e fs) [0 ..< length fs]) w
   \<and> (\<exists>evs. trace (snd (setup_install_mounts e (Some fs) w)) = trace w @ evs
          \<and> list_all install_event_ok evs)"
proof (intro conjI)
  show "setup_install_mounts e None w = (Inl NoFstab, w)"
    by (simp add: setup_install_mounts_def)
  show steps: "setup_install_mounts e (Some fs) w =
      run_until_failure (map (install_step e fs) [0 ..< length fs]) w"
    using setup_install_mounts_loop_steps [of e fs 0 "length fs" w]
    by (simp add: setup_install_mounts_def)
  have "\<exists>evs. trace (snd (step w')) = trace w' @ evs \<and> list_all install_event_ok evs"
    if "step \<in> set (map (install_step e fs) [0 ..< length fs])" for step w'
  proof -
    from that obtain i where "i < length fs" "step = install_step e fs i"
      by auto
    then show ?thesis
      using install_step_events [of i fs e w'] by simp
  qed
  then show "\<exists>evs. trace (snd (setup_install_mounts e (Some fs) w)) = trace w @ evs
          \<and> list_all install_event_ok evs"
    unfolding steps by (rule run_until_failure_events)
qed

theorem C8_setup_install_mounts_witness:
  "setup_install_mounts example_env None example_world = (Inl NoFstab, example_world)
   \<and> map (\<lambda>v. install_action_for (mount_point v)) example_fstab =
       [LeaveAlone, EnsureMounted, EnsureUnmounted True, EnsureMounted]
   \<and> run_until_failure (map (install_step example_env example_fstab)
        [0 ..< length example_fstab]) example_world =
       (Inr (), \<lparr>mounted = [''/cache'', ''/''],
                 trace = [Mkdirs ''/cache'', Mount ''/dev/block/cache'' ''/cache'' ''ext4'',
                          UmountDetach ''/data'']\<rparr>)
   \<and> setup_install_mounts example_env (Some example_fstab) example_world =
       (Inr (), \<lparr>mounted = [''/cache'', ''/''],
                 trace = [Mkdirs ''/cache'', Mount ''/dev/block/cache'' ''/cache'' ''ext4'',
                          UmountDetach ''/data'']\<rparr>)"
proof -
  have a: "map (\<lambda>v. install_action_for (mount_point v)) example_fstab =
       [LeaveAlone, EnsureMounted, EnsureUnmounted True, EnsureMounted]"
    by code_simp
  have b: "run_until_failure (map (install_step example_env example_fstab)
        [0 ..< length example_fstab]) example_world =
       (Inr (), \<lparr>mounted = [''/cache'', ''/''],
                 trace = [Mkdirs ''/cache'', Mount ''/dev/block/cache'' ''/cache'' ''ext4'',
                          UmountDetach ''/data'']\<rparr>)"
    by code_simp
  from C8_setup_install_mounts [of example_env example_world example_fstab] a b
  show ?thesis by simp
qed

section \<open>Idempotent mount and unmount\<close>

lemma ensure_volume_unmounted_Inr:
  assumes "ensure_volume_unmounted e fs (Some i) detach w = (Inr u, w1)"
  shows "fs_type (fs ! i) \<noteq> ''ramdisk'' \<and> scan_ok e \<and> mount_point (fs ! i) \<notin> set (mounted w1)"
  using assms
  by (auto simp: ensure_volume_unmounted_def find_mounted_volume_by_mount_point_def
      unmount_mounted_volume_def unmount_mounted_volume_detach_def mounted_emit Let_def
      split: if_splits)

lemma ensure_path_mounted_at_Inr:
  assumes "volume_for_path e fs path = Some i"
    and "ensure_path_mounted_at e fs path mount_point_arg w = (Inr u, w1)"
    and "fs_type (fs ! i) \<noteq> ''ramdisk''"
  shows "scan_ok e
       \<and> (case mount_point_arg of None \<Rightarrow> mount_point (fs ! i) | Some m \<Rightarrow> m) \<in> set (mounted w1)"
  using assms
  by (auto simp: ensure_path_mounted_at_def find_mounted_volume_by_mount_point_def
      os_mount_def mounted_emit Let_def split: if_splits option.splits)

text \<open>
  C6. For a path that resolves to a volume that is neither a ramdisk nor vold-managed,
  with a successful scan in which the target mount point appears,
  \<open>ensure_path_mounted_at\<close> succeeds and changes nothing; for a volume that is not a
  ramdisk, with a successful scan in which its mount point does not appear,
  \<open>ensure_volume_unmounted\<close> succeeds and changes nothing. Hence a second call right
  after a successful one succeeds and changes nothing: the mount, for a volume that is
  not vold-managed, has put the target into the scan, and the unmount has taken the
  mount point out of it.
\<close>

theorem C6_idempotent_mount_unmount:
  "(volume_for_path e fs path = Some i \<and> fs_type (fs ! i) \<noteq> ''ramdisk'' \<and> scan_ok e
      \<and> \<not> voldmanaged (fs ! i)
      \<and> (case mount_point_arg of None \<Rightarrow> mount_point (fs ! i) | Some m \<Rightarrow> m) \<in> set (mounted w) \<longrightarrow>
        ensure_path_mounted_at e fs path mount_point_arg w = (Inr (), w))
   \<and> (fs_type (fs ! j) \<noteq> ''ramdisk'' \<and> scan_ok e \<and> mount_point (fs ! j) \<notin> set (mounted w) \<longrightarrow>
        ensure_volume_unmounted e fs (Some j) detach w = (Inr (), w))
   \<and> (volume_for_path e fs path = Some i \<and> \<not> voldmanaged (fs ! i)
      \<and> ensure_path_mounted_at e fs path mount_point_arg w = (Inr (), w1) \<longrightarrow>
        ensure_path_mounted_at e fs path mount_point_arg w1 = (Inr (), w1))
   \<and> (ensure_volume_unmounted e fs v detach w = (Inr (), w2) \<longrightarrow>
        ensure_volume_unmounted e fs v detach w2 = (Inr (), w2))"
proof (intro conjI impI)
  assume "volume_for_path e fs path = Some i \<and> fs_type (fs ! i) \<noteq> ''ramdisk'' \<and> scan_ok e
      \<and> \<not> voldmanaged (fs ! i)
      \<and> (case mount_point_arg of None \<Rightarrow> mount_point (fs ! i) | Some m \<Rightarrow> m) \<in> set (mounted w)"
  then show "ensure_path_mounted_at e fs path mount_point_arg w = (Inr (), w)"
    by (simp add: ensure_path_mounted_at_def find_mounted_volume_by_mount_point_def)
next
  assume "fs_type (fs ! j) \<noteq> ''ramdisk'' \<and> scan_ok e \<and> mount_point (fs ! j) \<notin> set (mounted w)"
  then show "ensure_volume_unmounted e fs (Some j) detach w = (Inr (), w)"
    by (simp add: ensure_volume_unmounted_def find_mounted_volume_by_mount_point_def)
next
  assume a: "volume_for_path e fs path = Some i \<and> \<not> voldmanaged (fs ! i)
      \<and> ensure_path_mounted_at e fs path mount_point_arg w = (Inr (), w1)"
  show "ensure_path_mounted_at e fs path mount_point_arg w1 = (Inr (), w1)"
  proof (cases "fs_type (fs ! i) = ''ramdisk''")
    case True
    with a show ?thesis
      by (simp add: ensure_path_mounted_at_def)
  next
    case False
    from a have r: "volume_for_path e fs path = Some i" and nv: "\<not> voldmanaged (fs ! i)"
      and m: "ensure_path_mounted_at e fs path mount_point_arg w = (Inr (), w1)"
      by auto
    from ensure_path_mounted_at_Inr [OF r m False]
    have "scan_ok e"
      and "(case mount_point_arg of None \<Rightarrow> mount_point (fs ! i) | Some m \<Rightarrow> m) \<in> set (mounted w1)"
      by auto
    with r nv False show ?thesis
      by (simp add: ensure_path_mounted_at_def find_mounted_volume_by_mount_point_def)
  qed
next
  assume a: "ensure_volume_unmounted e fs v detach w = (Inr (), w2)"
  then obtain k where v: "v = Some k"
    by (cases v) (auto simp: ensure_volume_unmounted_def)
  from a v have "ensure_volume_unmounted e fs (Some k) detach w = (Inr (), w2)"
    by simp
  from ensure_volume_unmounted_Inr [OF this] v
  show "ensure_volume_unmounted e fs v detach w2 = (Inr (), w2)"
    by (simp add: ensure_volume_unmounted_def find_mounted_volume_by_mount_point_def)
qed

theorem C6_idempotent_witness:
  "volume_for_path example_env example_fstab ''/cache'' = Some 1
   \<and> fs_type (example_fstab ! 1) \<noteq> ''ramdisk''
   \<and> scan_ok example_env
   \<and> \<not> voldmanaged (example_fstab ! 1)
   \<and> mount_point (example_fstab ! 1) \<notin> set (mounted example_world)
   \<and> ensure_volume_unmounted example_env example_fstab (Some 1) False example_world =
       (Inr (), example_world)
   \<and> ensure_path_mounted_at example_env example_fstab ''/cache'' None example_world =
       (Inr (), cache_world)
   \<and> mount_point (example_fstab ! 1) \<in> set (mounted cache_world)
   \<and> ensure_path_mounted_at example_env example_fstab ''/cache'' None cache_world =
       (Inr (), cache_world)
   \<and> ensure_volume_unmounted example_env example_fstab (Some 2) True example_world =
       (Inr (), \<lparr>mounted = [''/''], trace = [UmountDetach ''/data'']\<rparr>)
   \<and> ensure_volume_unmounted example_env example_fstab (Some 2) True
        \<lparr>mounted = [''/''], trace = [UmountDetach ''/data'']\<rparr> =
       (Inr (), \<lparr>mounted = [''/''], trace = [UmountDetach ''/data'']\<rparr>)"
proof -
  have a: "volume_for_path example_env example_fstab ''/cache'' = Some 1"
    by code_simp
  have b: "fs_type (example_fstab ! 1) \<noteq> ''ramdisk''" "scan_ok example_env"
      "\<not> voldmanaged (example_fstab ! 1)"
      "mount_point (example_fstab ! 1) \<notin> set (mounted example_world)"
      "mount_point (example_fstab ! 1) \<in> set (mounted cache_world)"
    by code_simp+
  have c: "ensure_path_mounted_at example_env example_fstab ''/cache'' None example_world =
       (Inr (), cache_world)"
    by code_simp
  have d: "ensure_volume_unmounted example_env example_fstab (Some 2) True example_world =
       (Inr (), \<lparr>mounted = [''/''], trace = [UmountDetach ''/data'']\<rparr>)"
    by code_simp
  have m1: "ensure_path_mounted_at example_env example_fstab ''/cache'' None cache_world =
       (Inr (), cache_world)"
    using C6_idempotent_mount_unmount [where e = example_env and fs = example_fstab
      and path = "''/cache''" and i = 1 and mount_point_arg = None and w = cache_world,
      THEN conjunct1] a b
    by simp
  have u1: "ensure_volume_unmounted example_env example_fstab (Some 1) False example_world =
       (Inr (), example_world)"
    using C6_idempotent_mount_unmount [where e = example_env and fs = example_fstab
      and j = 1 and detach = False and w = example_world,
      THEN conjunct2, THEN conjunct1] b
    by simp
  have m2: "ensure_path_mounted_at example_env example_fstab ''/cache'' None cache_world =
       (Inr (), cache_world)"
    using C6_idempotent_mount_unmount [where e = example_env and fs = example_fstab
      and path = "''/cache''" and i = 1 and mount_point_arg = None and w = example_world
      and ?w1.0 = cache_world, THEN conjunct2, THEN conjunct2, THEN conjunct1] a b c
    by simp
  have u2: "ensure_volume_unmounted example_env example_fstab (Some 2) True
        \<lparr>mounted = [''/''], trace = [UmountDetach ''/data'']\<rparr> =
       (Inr (), \<lparr>mounted = [''/''], trace = [UmountDetach ''/data'']\<rparr>)"
    using C6_idempotent_mount_unmount [where e = example_env and fs = example_fstab
      and w = example_world and detach = True and v = "Some 2"
      and ?w2.0 = "\<lparr>mounted = [''/''], trace = [UmountDetach ''/data'']\<rparr>",
      THEN conjunct2, THEN conjunct2, THEN conjunct2] d
    by simp
  from a b c d m1 u1 m2 u2 show ?thesis
    by simp
qed

section \<open>Late rejections of a format\<close>

lemma wipe_key_loc_Inr:
  assumes "wipe_key_loc e v w1 = (Inr u, w2)"
  shows "mounted w2 = mounted w1
       \<and> trace w2 = trace w1 @
            (case key_loc v of
               None \<Rightarrow> []
             | Some k \<Rightarrow> if k \<noteq> [] \<and> hd k = CHR ''/'' then [OpenCreate k, WipeBlockDevice k] else [])"
  using assms
  by (auto simp: wipe_key_loc_def trace_emit mounted_emit split: option.splits if_splits)

lemma format_volume_late_rejection:
  assumes "format_volume e fs volume directory w = Returns (Inl err, w')"
    and "err = VoldVolume \<or> err = InvalidSize \<or> err = BlkDeviceOpenFailed"
  shows "\<exists>i w1. volume_for_path e fs volume = Some i
           \<and> mount_point (fs ! i) = volume
           \<and> (fs_type (fs ! i) = ''ext4'' \<or> fs_type (fs ! i) = ''f2fs'')
           \<and> ensure_path_unmounted e fs volume False w = Returns (Inr (), w1)
           \<and> wipe_key_loc e (fs ! i) w1 = (Inr (), w')"
proof -
  from assms obtain i where i: "volume_for_path e fs volume = Some i"
    by (auto simp: format_volume_def split: option.splits)
  from assms i have nr: "fs_type (fs ! i) \<noteq> ''ramdisk''" and mp: "mount_point (fs ! i) = volume"
    by (auto simp: format_volume_def Let_def split: if_splits)
  from assms i nr mp obtain r w1 where
    u: "ensure_path_unmounted e fs volume False w = Returns (r, w1)"
    by (cases "ensure_path_unmounted e fs volume False w")
       (auto simp: format_volume_def Let_def)
  from assms i nr mp u obtain x where r: "r = Inr x"
    by (cases r) (auto simp: format_volume_def Let_def)
  from assms i nr mp u r have ty: "fs_type (fs ! i) = ''ext4'' \<or> fs_type (fs ! i) = ''f2fs''"
    by (auto simp: format_volume_def Let_def split: if_splits)
  obtain r2 w2 where k: "wipe_key_loc e (fs ! i) w1 = (r2, w2)"
    by (cases "wipe_key_loc e (fs ! i) w1") auto
  have ne: "\<And>l. wipe_key_loc e (fs ! i) w1 \<noteq> (Inl err, l)"
    using assms(2) by (auto simp: wipe_key_loc_def split: option.splits if_splits)
  have f4: "fst (format_ext4 e v volume directory len l) \<noteq> Inl err"
      "fst (format_f2fs e v volume directory len l) \<noteq> Inl err" for v len l
    using assms(2)
    by (auto simp: format_ext4_def format_f2fs_def Let_def split: prod.splits option.splits)
  from assms(1) i nr mp u r ty k ne f4 [of "fs ! i" _ w2] have "r2 = Inr () \<and> w2 = w'"
    by (cases r2; cases "compute_length e (fs ! i)")
       (auto simp: format_volume_def Let_def split: if_splits dest: arg_cong [where f = fst])
  with i mp ty u r k show ?thesis
    by auto
qed


text \<open>
  C10 (as amended). When \<open>format_volume\<close> rejects a volume at the vold-managed check
  or in the length computation, the volume is of type ext4 or f2fs, the unmount step
  \<open>ensure_path_unmounted\<close> on the path has already succeeded, and a \<open>key_loc\<close> that
  is an absolute path has already been opened and wiped: the failure leaves these
  effects behind. For a path that does not begin with \<open>/storage/\<close> the mount point
  of the volume is then no longer mounted.
\<close>

theorem C10_format_volume_failure_not_atomic:
  assumes "format_volume e fs volume directory w = Returns (Inl err, w')"
    and "err = VoldVolume \<or> err = InvalidSize \<or> err = BlkDeviceOpenFailed"
  shows "\<exists>i w1. volume_for_path e fs volume = Some i
           \<and> (fs_type (fs ! i) = ''ext4'' \<or> fs_type (fs ! i) = ''f2fs'')
           \<and> ensure_path_unmounted e fs volume False w = Returns (Inr (), w1)
           \<and> (take 9 volume \<noteq> ''/storage/'' \<longrightarrow> mount_point (fs ! i) \<notin> set (mounted w'))
           \<and> mounted w' = mounted w1
           \<and> trace w' = trace w1 @
                (case key_loc (fs ! i) of
                   None \<Rightarrow> []
                 | Some k \<Rightarrow> if k \<noteq> [] \<and> hd k = CHR ''/''
                             then [OpenCreate k, WipeBlockDevice k] else [])"
proof -
  from format_volume_late_rejection [OF assms]
  obtain i w1 where i: "volume_for_path e fs volume = Some i"
    and ty: "fs_type (fs ! i) = ''ext4'' \<or> fs_type (fs ! i) = ''f2fs''"
    and u: "ensure_path_unmounted e fs volume False w = Returns (Inr (), w1)"
    and k: "wipe_key_loc e (fs ! i) w1 = (Inr (), w')"
    by blast
  note wiped = wipe_key_loc_Inr [OF k]
  have "mount_point (fs ! i) \<notin> set (mounted w')" if "take 9 volume \<noteq> ''/storage/''"
  proof -
    from that u i have "ensure_volume_unmounted e fs (Some i) False w = (Inr (), w1)"
      by (simp add: ensure_path_unmounted_def)
    from ensure_volume_unmounted_Inr [OF this] wiped show ?thesis
      by simp
  qed
  with i ty u wiped show ?thesis
    by blast
qed

theorem C10_not_atomic_witness:
  "format_volume example_env vold_fstab ''/mnt/usb'' None usb_world =
     Returns (Inl VoldVolume,
       \<lparr>mounted = [],
        trace = [Umount ''/mnt/usb'', OpenCreate ''/dev/block/sda2'',
                 WipeBlockDevice ''/dev/block/sda2'']\<rparr>)
   \<and> ensure_path_unmounted example_env vold_fstab ''/mnt/usb'' False usb_world =
       Returns (Inr (), \<lparr>mounted = [], trace = [Umount ''/mnt/usb'']\<rparr>)
   \<and> key_loc (vold_fstab ! 0) = Some ''/dev/block/sda2''
   \<and> (\<exists>i w1. volume_for_path example_env vold_fstab ''/mnt/usb'' = Some i
          \<and> ensure_path_unmounted example_env vold_fstab ''/mnt/usb'' False usb_world =
              Returns (Inr (), w1)
          \<and> trace \<lparr>mounted = [],
                    trace = [Umount ''/mnt/usb'', OpenCreate ''/dev/block/sda2'',
                             WipeBlockDevice ''/dev/block/sda2'']\<rparr> =
              trace w1 @
                (case key_loc (vold_fstab ! i) of
                   None \<Rightarrow> []
                 | Some k \<Rightarrow> if k \<noteq> [] \<and> hd k = CHR ''/''
                             then [OpenCreate k, WipeBlockDevice k] else []))"
proof -
  have a: "format_volume example_env vold_fstab ''/mnt/usb'' None usb_world =
     Returns (Inl VoldVolume,
       \<lparr>mounted = [],
        trace = [Umount ''/mnt/usb'', OpenCreate ''/dev/block/sda2'',
                 WipeBlockDevice ''/dev/block/sda2'']\<rparr>)"
    by code_simp
  have b: "ensure_path_unmounted example_env vold_fstab ''/mnt/usb'' False usb_world =
       Returns (Inr (), \<lparr>mounted = [], trace = [Umount ''/mnt/usb'']\<rparr>)"
    by code_simp
  have c: "key_loc (vold_fstab ! 0) = Some ''/dev/block/sda2''"
    by code_simp
  have d: "VoldVolume = VoldVolume \<or> VoldVolume = InvalidSize \<or> VoldVolume = BlkDeviceOpenFailed"
    by simp
  from C10_format_volume_failure_not_atomic [OF a d] have
    "\<exists>i w1. volume_for_path example_env vold_fstab ''/mnt/usb'' = Some i
          \<and> ensure_path_unmounted example_env vold_fstab ''/mnt/usb'' False usb_world =
              Returns (Inr (), w1)
          \<and> trace \<lparr>mounted = [],
                    trace = [Umount ''/mnt/usb'', OpenCreate ''/dev/block/sda2'',
                             WipeBlockDevice ''/dev/block/sda2'']\<rparr> =
              trace w1 @
                (case key_loc (vold_fstab ! i) of
                   None \<Rightarrow> []
                 | Some k \<Rightarrow> if k \<noteq> [] \<and> hd k = CHR ''/''
                             then [OpenCreate k, WipeBlockDevice k] else [])"
    by blast
  with a b c show ?thesis
    by blast
qed

text \<open>
  The vold-managed volume at \<open>/storage/usb\<close> is rejected at the vold check with its
  \<open>key_loc\<close> wiped, yet it is still mounted: the unmount step resolved the label
  \<open>usb\<close> and unmounted \<open>/mnt/sdcard\<close>.
\<close>

theorem C10_storage_path_counterexample:
  "volume_for_path example_env storage_fstab ''/storage/usb'' = Some 0
   \<and> fs_type (storage_fstab ! 0) = ''ext4''
   \<and> format_volume example_env storage_fstab ''/storage/usb'' None storage_world =
       Returns (Inl VoldVolume,
         \<lparr>mounted = [''/storage/usb''],
          trace = [Umount ''/mnt/sdcard'', OpenCreate ''/dev/block/sda2'',
                   WipeBlockDevice ''/dev/block/sda2'']\<rparr>)"
  by code_simp

end
